theory Spec2Isabelle
  imports Complex_Main
begin

section \<open>Python values used by both programs\<close>

text \<open>
  Exceptions are values: a function that can raise returns \<open>py_error + 'a\<close>, with \<open>Inl\<close>
  for the exception, and \<open>err_bind\<close> passes the first exception on, as the statements of a
  Python block do. A Python float is the rational number it denotes: the rounding of float
  arithmetic, NaN and the infinities are not part of the model.
\<close>

datatype py_error =
    KeyError string
  | ZeroDivisionError
  | ValueError
  | TypeError
  | AttributeError
  | OverflowError

definition err_bind :: "py_error + 'a \<Rightarrow> ('a \<Rightarrow> py_error + 'b) \<Rightarrow> py_error + 'b" where
  "err_bind m f = (case m of Inl e \<Rightarrow> Inl e | Inr v \<Rightarrow> f v)"

section \<open>Event model of \<^verbatim>\<open>ftp_transfer_analyzer.py\<close>\<close>

text \<open>
  A \<^verbatim>\<open>datetime\<close> is an instant with microsecond resolution between \<^verbatim>\<open>datetime.min\<close>
  (0001-01-01 00:00:00) and \<^verbatim>\<open>datetime.max\<close> (9999-12-31 23:59:59.999999): the number of
  microseconds since \<^verbatim>\<open>datetime.min\<close>, from 0 to \<open>datetime_max\<close> (3652059 days less one
  microsecond). A \<^verbatim>\<open>timedelta\<close> is a signed number of microseconds of at most 999999999 days
  in magnitude.
\<close>

type_synonym datetime = int
type_synonym timedelta = int

definition datetime_min :: datetime where
  "datetime_min = 0"

definition datetime_max :: datetime where
  "datetime_max = 3652059 * 86400000000 - 1"

definition timedelta_min :: timedelta where
  "timedelta_min = - 999999999 * 86400000000"

definition timedelta_max :: timedelta where
  "timedelta_max = 1000000000 * 86400000000 - 1"

text \<open>Rounding to the nearest integer, a tie going to the even neighbour.\<close>

definition round_half_even :: "rat \<Rightarrow> int" where
  "round_half_even x =
     (let f = \<lfloor>x\<rfloor>; d = x - of_int f
      in if d < 1 / 2 then f
         else if 1 / 2 < d then f + 1
         else if even f then f else f + 1)"

text \<open>
  \<^verbatim>\<open>timedelta(seconds=x)\<close> for a float \<open>x\<close>: the number of microseconds nearest to \<open>x\<close>
  seconds, a tie going to the even number; \<^verbatim>\<open>OverflowError\<close> beyond 999999999 days.
\<close>

definition timedelta_seconds :: "rat \<Rightarrow> py_error + timedelta" where
  "timedelta_seconds x =
     (let us = round_half_even (x * 1000000)
      in if timedelta_min \<le> us \<and> us \<le> timedelta_max then Inr us else Inl OverflowError)"

text \<open>\<^verbatim>\<open>datetime + timedelta\<close> raises \<^verbatim>\<open>OverflowError\<close> when the sum is no \<^verbatim>\<open>datetime\<close>.\<close>

definition datetime_add :: "datetime \<Rightarrow> timedelta \<Rightarrow> py_error + datetime" where
  "datetime_add t d =
     (if datetime_min \<le> t + d \<and> t + d \<le> datetime_max then Inr (t + d) else Inl OverflowError)"

text \<open>\<^verbatim>\<open>timedelta.total_seconds()\<close>, a float: the span divided by \<open>10^6\<close>.\<close>

definition total_seconds :: "timedelta \<Rightarrow> rat" where
  "total_seconds d = of_int d / 1000000"

text \<open>Instants and spans written in seconds and in milliseconds.\<close>

definition seconds :: "int \<Rightarrow> timedelta" where
  "seconds s = s * 1000000"

definition milliseconds :: "int \<Rightarrow> timedelta" where
  "milliseconds ms = ms * 1000"

text \<open>
  \<^verbatim>\<open>parse_mqtt_log\<close> yields dictionaries with the keys \<^verbatim>\<open>timestamp\<close> and \<^verbatim>\<open>type\<close>
  (\<^verbatim>\<open>'true'\<close> or \<^verbatim>\<open>'false'\<close>); \<^verbatim>\<open>parse_wireshark_ftp_log\<close> yields dictionaries with the keys
  \<^verbatim>\<open>type\<close>, \<^verbatim>\<open>timestamp\<close> and \<^verbatim>\<open>filename\<close> (\<^verbatim>\<open>None\<close> for every event that is not a STOR).
\<close>

datatype mqtt_type = MQTT_true | MQTT_false

datatype ftp_type = STOR | COMPLETION | CONN_OPEN | CONN_CLOSE

record 'k event =
  type :: 'k
  timestamp :: datetime

type_synonym mqtt_event = "mqtt_type event"

record ftp_event = "ftp_type event" +
  filename :: "string option"

text \<open>The dictionary appended to \<^verbatim>\<open>analysis_results\<close> (lines 204-217), key by key.
  A parsed FTP event always has the key \<^verbatim>\<open>filename\<close>, so \<^verbatim>\<open>found_stor.get('filename', 'N/A')\<close>
  is the value under that key.\<close>

record analysis_result =
  mqtt_true_time :: datetime
  ftp_stor_time :: datetime
  ftp_completion_time :: datetime
  transfer_duration_seconds :: rat
  filename :: "string option"
  next_false_mqtt_time :: "datetime option"
  transfer_completed_after_false_signal :: bool
  time_overlap_after_false_signal_seconds :: "rat option"
  time_true_to_transfer_start_seconds :: rat
  connection_opened_time :: "datetime option"
  connection_closed_time :: "datetime option"
  overlapped_with_previous_transfer :: bool

section \<open>The correlation pass \<^verbatim>\<open>analyze_transfers\<close>\<close>

text \<open>Lines 148-151: the list comprehension over \<^verbatim>\<open>ftp_events\<close>, in list order.\<close>

definition relevant_stors :: "ftp_event list \<Rightarrow> datetime \<Rightarrow> datetime \<Rightarrow> ftp_event list" where
  "relevant_stors ftp_events search_start_time search_end_time =
     filter (\<lambda>e. type e = STOR \<and> search_start_time \<le> timestamp e
                  \<and> timestamp e \<le> search_end_time) ftp_events"

text \<open>Lines 157-160: the first event of the list, in list order, that is a COMPLETION
  with a timestamp strictly after the STOR; the loop stops there.\<close>

fun first_completion_after :: "ftp_event list \<Rightarrow> datetime \<Rightarrow> ftp_event option" where
  "first_completion_after [] stor_ts = None"
| "first_completion_after (event # rest) stor_ts =
     (if timestamp event > stor_ts \<and> type event = COMPLETION then Some event
      else first_completion_after rest stor_ts)"

text \<open>Lines 167-171: the loop over \<^verbatim>\<open>range(i + 1, len(mqtt_events))\<close>; the argument is
  the slice \<^verbatim>\<open>mqtt_events[i+1:]\<close>.\<close>

fun next_false_mqtt :: "mqtt_event list \<Rightarrow> datetime option" where
  "next_false_mqtt [] = None"
| "next_false_mqtt (e # rest) =
     (if type e = MQTT_false then Some (timestamp e) else next_false_mqtt rest)"

text \<open>Lines 184-189: the loop over \<^verbatim>\<open>reversed(range(len(ftp_events)))\<close>; the argument is the
  reversed list. The \<^verbatim>\<open>break\<close> sits inside the tolerance test, so a CONN_OPEN that is too
  old does not stop the walk. The distance in seconds is compared with the tolerance as it
  was passed, a float of seconds.\<close>

fun closest_conn_open :: "ftp_event list \<Rightarrow> datetime \<Rightarrow> rat \<Rightarrow> datetime option" where
  "closest_conn_open [] stor_ts time_tolerance_seconds_conn = None"
| "closest_conn_open (e # rest) stor_ts time_tolerance_seconds_conn =
     (if timestamp e < stor_ts \<and> type e = CONN_OPEN then
        (if total_seconds (stor_ts - timestamp e) \<le> time_tolerance_seconds_conn
         then Some (timestamp e)
         else closest_conn_open rest stor_ts time_tolerance_seconds_conn)
      else closest_conn_open rest stor_ts time_tolerance_seconds_conn)"

text \<open>Lines 192-197: the forward loop for the CONN_CLOSE after the completion.\<close>

fun closest_conn_close :: "ftp_event list \<Rightarrow> datetime \<Rightarrow> rat \<Rightarrow> datetime option" where
  "closest_conn_close [] completion_ts time_tolerance_seconds_conn = None"
| "closest_conn_close (e # rest) completion_ts time_tolerance_seconds_conn =
     (if timestamp e > completion_ts \<and> type e = CONN_CLOSE then
        (if total_seconds (timestamp e - completion_ts) \<le> time_tolerance_seconds_conn
         then Some (timestamp e)
         else closest_conn_close rest completion_ts time_tolerance_seconds_conn)
      else closest_conn_close rest completion_ts time_tolerance_seconds_conn)"

text \<open>
  Lines 147-217: what one iteration does once the window of line 145 is there. The arguments
  are the event of type \<^verbatim>\<open>'true'\<close>, the slice \<^verbatim>\<open>mqtt_events[i+1:]\<close> behind it, the FTP events,
  \<^verbatim>\<open>search_end_time\<close>, the connection tolerance and the current
  \<^verbatim>\<open>last_transfer_completion_time\<close>. The result is the dictionary that the iteration appends,
  or \<open>None\<close> when it takes the \<^verbatim>\<open>else\<close> branch of line 221 and only logs. A dictionary and a
  \<^verbatim>\<open>datetime\<close> are always truthy in Python, so the tests of lines 162, 175 and 201 are tests
  for \<^verbatim>\<open>None\<close>.
\<close>

definition match_in_window ::
  "mqtt_event \<Rightarrow> mqtt_event list \<Rightarrow> ftp_event list \<Rightarrow> datetime \<Rightarrow> rat
     \<Rightarrow> datetime option \<Rightarrow> analysis_result option" where
  "match_in_window mqtt_event later_mqtt ftp_events search_end_time
       time_tolerance_seconds_conn last_completion =
     (let mqtt_true_ts = timestamp mqtt_event;
          search_start_time = mqtt_true_ts
      in case relevant_stors ftp_events search_start_time search_end_time of
           [] \<Rightarrow> None
         | found_stor # _ \<Rightarrow>
            (case first_completion_after ftp_events (timestamp found_stor) of
               None \<Rightarrow> None
             | Some found_completion \<Rightarrow>
                (let transfer_duration = timestamp found_completion - timestamp found_stor;
                     time_true_to_transfer_start = timestamp found_stor - mqtt_true_ts;
                     next_false_mqtt_ts = next_false_mqtt later_mqtt;
                     after_false =
                       (case next_false_mqtt_ts of
                          None \<Rightarrow> False
                        | Some off \<Rightarrow> timestamp found_completion > off);
                     overlap_seconds =
                       (case next_false_mqtt_ts of
                          None \<Rightarrow> None
                        | Some off \<Rightarrow>
                            if timestamp found_completion > off
                            then Some (total_seconds (timestamp found_completion - off))
                            else None);
                     conn_opened_time =
                       closest_conn_open (rev ftp_events) (timestamp found_stor)
                         time_tolerance_seconds_conn;
                     conn_closed_time =
                       closest_conn_close ftp_events (timestamp found_completion)
                         time_tolerance_seconds_conn;
                     overlapped =
                       (case last_completion of
                          None \<Rightarrow> False
                        | Some last_ts \<Rightarrow> mqtt_true_ts < last_ts)
                 in Some \<lparr> mqtt_true_time = mqtt_true_ts,
                           ftp_stor_time = timestamp found_stor,
                           ftp_completion_time = timestamp found_completion,
                           transfer_duration_seconds = total_seconds transfer_duration,
                           filename = ftp_event.filename found_stor,
                           next_false_mqtt_time = next_false_mqtt_ts,
                           transfer_completed_after_false_signal = after_false,
                           time_overlap_after_false_signal_seconds = overlap_seconds,
                           time_true_to_transfer_start_seconds =
                             total_seconds time_true_to_transfer_start,
                           connection_opened_time = conn_opened_time,
                           connection_closed_time = conn_closed_time,
                           overlapped_with_previous_transfer = overlapped \<rparr>)))"

text \<open>
  Lines 137-217: the body of the loop for one event of type \<^verbatim>\<open>'true'\<close>. Line 145 builds
  \<^verbatim>\<open>search_end_time = mqtt_true_ts + timedelta(seconds=time_tolerance_seconds_stor)\<close> first:
  the tolerance, a float of seconds, is rounded to microseconds, and both the construction
  of the \<^verbatim>\<open>timedelta\<close> and the addition can raise \<^verbatim>\<open>OverflowError\<close>, which ends the call.
\<close>

definition analyze_true_event ::
  "mqtt_event \<Rightarrow> mqtt_event list \<Rightarrow> ftp_event list \<Rightarrow> rat \<Rightarrow> rat
     \<Rightarrow> datetime option \<Rightarrow> py_error + analysis_result option" where
  "analyze_true_event mqtt_event later_mqtt ftp_events time_tolerance_seconds_stor
       time_tolerance_seconds_conn last_completion =
     err_bind (timedelta_seconds time_tolerance_seconds_stor) (\<lambda>tolerance.
     err_bind (datetime_add (timestamp mqtt_event) tolerance) (\<lambda>search_end_time.
       Inr (match_in_window mqtt_event later_mqtt ftp_events search_end_time
              time_tolerance_seconds_conn last_completion)))"

text \<open>
  Lines 135-224: the loop over \<^verbatim>\<open>enumerate(mqtt_events)\<close>, as a recursion over the events
  still to visit. The state carried from one iteration to the next is
  \<^verbatim>\<open>last_transfer_completion_time\<close>; the records appended to \<^verbatim>\<open>analysis_results\<close> are
  returned in the order of their emission, unless an iteration raises.
\<close>

fun analyze_loop ::
  "mqtt_event list \<Rightarrow> ftp_event list \<Rightarrow> rat \<Rightarrow> rat \<Rightarrow> datetime option
     \<Rightarrow> py_error + analysis_result list" where
  "analyze_loop [] ftp_events tol_stor tol_conn last_completion = Inr []"
| "analyze_loop (mqtt_event # later) ftp_events tol_stor tol_conn last_completion =
     (if type mqtt_event = MQTT_true then
        (case analyze_true_event mqtt_event later ftp_events tol_stor tol_conn last_completion of
           Inl err \<Rightarrow> Inl err
         | Inr (Some res) \<Rightarrow>
             err_bind
               (analyze_loop later ftp_events tol_stor tol_conn (Some (ftp_completion_time res)))
               (\<lambda>rest. Inr (res # rest))
         | Inr None \<Rightarrow> analyze_loop later ftp_events tol_stor tol_conn last_completion)
      else analyze_loop later ftp_events tol_stor tol_conn last_completion)"

definition analyze_transfers ::
  "mqtt_event list \<Rightarrow> ftp_event list \<Rightarrow> rat \<Rightarrow> rat \<Rightarrow> py_error + analysis_result list" where
  "analyze_transfers mqtt_events ftp_events time_tolerance_seconds_stor
       time_tolerance_seconds_conn =
     analyze_loop mqtt_events ftp_events time_tolerance_seconds_stor
       time_tolerance_seconds_conn None"

section \<open>The report step of \<^verbatim>\<open>run_analysis\<close>\<close>

text \<open>Python's \<^verbatim>\<open>/\<close> raises on a zero divisor; \<^verbatim>\<open>min\<close> and \<^verbatim>\<open>max\<close> raise on an empty list.\<close>

definition py_div :: "rat \<Rightarrow> rat \<Rightarrow> py_error + rat" where
  "py_div a b = (if b = 0 then Inl ZeroDivisionError else Inr (a / b))"

definition py_min :: "rat list \<Rightarrow> py_error + rat" where
  "py_min xs = (if xs = [] then Inl ValueError else Inr (Min (set xs)))"

definition py_max :: "rat list \<Rightarrow> py_error + rat" where
  "py_max xs = (if xs = [] then Inl ValueError else Inr (Max (set xs)))"

text \<open>
  A replacement field \<^verbatim>\<open>{value:spec}\<close> of an f-string calls \<^verbatim>\<open>format(value, spec)\<close>, and the
  spec is every character between the colon and the closing brace, blanks included. For a
  float the spec has to follow the format-specification mini-language,
  \<^verbatim>\<open>[[fill]align][sign][z][#][0][width][grouping][.precision][type]\<close> with one of the types
  \<^verbatim>\<open>eEfFgGn%\<close>, and nothing may follow the type; otherwise \<^verbatim>\<open>ValueError\<close> is raised. The
  text that formatting produces is not modelled, only whether it raises.
\<close>

definition skip_char :: "char \<Rightarrow> string \<Rightarrow> string" where
  "skip_char c s = (case s of [] \<Rightarrow> [] | x # rest \<Rightarrow> if x = c then rest else s)"

definition is_digit :: "char \<Rightarrow> bool" where
  "is_digit c = (c \<in> set ''0123456789'')"

definition float_format_spec_valid :: "string \<Rightarrow> bool" where
  "float_format_spec_valid spec =
     (let aligns = set ''<>=^'';
          s1 = (case spec of
                  [] \<Rightarrow> []
                | [a] \<Rightarrow> if a \<in> aligns then [] else spec
                | f # a # rest \<Rightarrow>
                    if a \<in> aligns then rest else if f \<in> aligns then a # rest else spec);
          s2 = (case s1 of [] \<Rightarrow> [] | c # rest \<Rightarrow> if c \<in> set ''+- '' then rest else s1);
          s3 = skip_char CHR ''0'' (skip_char CHR ''#'' (skip_char CHR ''z'' s2));
          s4 = dropWhile is_digit s3;
          s5 = (case s4 of [] \<Rightarrow> [] | c # rest \<Rightarrow> if c \<in> set '',_'' then rest else s4);
          precision_ok =
            (case s5 of
               [] \<Rightarrow> True
             | c # rest \<Rightarrow> c \<noteq> CHR ''.'' \<or> (rest \<noteq> [] \<and> is_digit (hd rest)));
          s6 = (case s5 of
                  [] \<Rightarrow> []
                | c # rest \<Rightarrow> if c = CHR ''.'' then dropWhile is_digit rest else s5)
      in precision_ok \<and> (s6 = [] \<or> (\<exists>t\<in>set ''eEfFgGn%''. s6 = [t])))"

definition py_format_float :: "string \<Rightarrow> rat \<Rightarrow> py_error + unit" where
  "py_format_float spec x = (if float_format_spec_valid spec then Inr () else Inl ValueError)"

text \<open>The numbers written below \<^verbatim>\<open>--- Summary Statistics ---\<close> (lines 292-307). The two
  overlap figures are printed only when some transfer completed after a \<^verbatim>\<open>'false'\<close>.\<close>

record summary_statistics =
  total_correlated_transfers :: nat
  average_true_to_start :: rat
  min_true_to_start :: rat
  max_true_to_start :: rat
  average_transfer_duration :: rat
  min_transfer_duration :: rat
  max_transfer_duration :: rat
  transfers_after_false_count :: nat
  transfers_after_false_percent :: rat
  average_overlap_after_false :: "rat option"
  max_overlap_after_false :: "rat option"
  overlapped_with_previous_count :: nat
  overlapped_with_previous_percent :: rat

text \<open>
  The loop of lines 266-289 over the records. Lines 270 and 272 format the latency and the
  duration with \<^verbatim>\<open>:.4f\<close>. For a record that completed after the \<^verbatim>\<open>'false'\<close> signal, line 276
  formats the overlap with \<^verbatim>\<open>:.4f\<close> (\<^verbatim>\<open>TypeError\<close> on \<^verbatim>\<open>None\<close>) and line 278 appends it to
  \<^verbatim>\<open>overlap_after_false_durations\<close>; \<^verbatim>\<open>transfers_after_false_count\<close> is the length of that
  list.
\<close>

fun overlap_after_false_durations :: "analysis_result list \<Rightarrow> py_error + rat list" where
  "overlap_after_false_durations [] = Inr []"
| "overlap_after_false_durations (res # rest) =
     err_bind (py_format_float ''.4f'' (time_true_to_transfer_start_seconds res)) (\<lambda>_.
     err_bind (py_format_float ''.4f'' (transfer_duration_seconds res)) (\<lambda>_.
       if transfer_completed_after_false_signal res then
         (case time_overlap_after_false_signal_seconds res of
            None \<Rightarrow> Inl TypeError
          | Some v \<Rightarrow>
              err_bind (py_format_float ''.4f'' v) (\<lambda>_.
              err_bind (overlap_after_false_durations rest) (\<lambda>vs. Inr (v # vs))))
       else overlap_after_false_durations rest))"

text \<open>Lines 303-305.\<close>

definition overlap_summary :: "rat list \<Rightarrow> py_error + rat option \<times> rat option" where
  "overlap_summary durations =
     (if durations \<noteq> [] then
        err_bind (py_div (sum_list durations) (of_nat (length durations))) (\<lambda>avg.
        err_bind (py_format_float ''.4f'' avg) (\<lambda>_.
        err_bind (py_max durations) (\<lambda>mx.
        err_bind (py_format_float ''.4f'' mx) (\<lambda>_. Inr (Some avg, Some mx)))))
      else Inr (None, None))"

text \<open>
  Lines 260-309: the lists collected by the loop and the block guarded by
  \<^verbatim>\<open>if total_transfer_durations:\<close>, statement by statement. \<open>None\<close> is the \<^verbatim>\<open>else\<close> branch,
  which prints \<^verbatim>\<open>No transfer durations to summarize.\<close> The two percentages of lines 302 and
  307 stand in replacement fields written \<^verbatim>\<open>{ (...):.2f }\<close>, whose spec is \<^verbatim>\<open>.2f\<close> followed by
  a blank.
\<close>

definition summary_step :: "analysis_result list \<Rightarrow> py_error + summary_statistics option" where
  "summary_step analysis_results =
     err_bind (overlap_after_false_durations analysis_results) (\<lambda>overlap_durations.
       let total_transfer_durations = map transfer_duration_seconds analysis_results;
           time_true_to_start_durations =
             map time_true_to_transfer_start_seconds analysis_results;
           after_false_count = length overlap_durations;
           with_previous_count =
             length (filter overlapped_with_previous_transfer analysis_results)
       in if total_transfer_durations \<noteq> [] then
            err_bind (py_div (sum_list time_true_to_start_durations)
                             (of_nat (length time_true_to_start_durations))) (\<lambda>avg_start.
            err_bind (py_format_float ''.4f'' avg_start) (\<lambda>_.
            err_bind (py_min time_true_to_start_durations) (\<lambda>min_start.
            err_bind (py_format_float ''.4f'' min_start) (\<lambda>_.
            err_bind (py_max time_true_to_start_durations) (\<lambda>max_start.
            err_bind (py_format_float ''.4f'' max_start) (\<lambda>_.
            err_bind (py_div (sum_list total_transfer_durations)
                             (of_nat (length total_transfer_durations))) (\<lambda>avg_dur.
            err_bind (py_format_float ''.4f'' avg_dur) (\<lambda>_.
            err_bind (py_min total_transfer_durations) (\<lambda>min_dur.
            err_bind (py_format_float ''.4f'' min_dur) (\<lambda>_.
            err_bind (py_max total_transfer_durations) (\<lambda>max_dur.
            err_bind (py_format_float ''.4f'' max_dur) (\<lambda>_.
            err_bind (py_div (of_nat after_false_count)
                             (of_nat (length analysis_results))) (\<lambda>frac_false.
            err_bind (py_format_float ''.2f '' (frac_false * 100)) (\<lambda>_.
            err_bind (overlap_summary overlap_durations) (\<lambda>(avg_overlap, max_overlap).
            err_bind (py_div (of_nat with_previous_count)
                             (of_nat (length analysis_results))) (\<lambda>frac_previous.
            err_bind (py_format_float ''.2f '' (frac_previous * 100)) (\<lambda>_.
              Inr (Some \<lparr> total_correlated_transfers = length analysis_results,
                          average_true_to_start = avg_start,
                          min_true_to_start = min_start,
                          max_true_to_start = max_start,
                          average_transfer_duration = avg_dur,
                          min_transfer_duration = min_dur,
                          max_transfer_duration = max_dur,
                          transfers_after_false_count = after_false_count,
                          transfers_after_false_percent = frac_false * 100,
                          average_overlap_after_false = avg_overlap,
                          max_overlap_after_false = max_overlap,
                          overlapped_with_previous_count = with_previous_count,
                          overlapped_with_previous_percent = frac_previous * 100 \<rparr>))))))))))))))))))
          else Inr None)"

text \<open>
  Lines 235-314 of \<^verbatim>\<open>run_analysis\<close>, from the two parsed event lists on: the three early
  returns and the report. The tolerances are the constants of lines 245-246. Nothing in
  \<^verbatim>\<open>run_analysis\<close> catches an exception.
\<close>

datatype run_outcome =
    No_mqtt_messages
  | No_ftp_events
  | No_correlations
  | Report "analysis_result list" "summary_statistics option"

definition run_analysis :: "mqtt_event list \<Rightarrow> ftp_event list \<Rightarrow> py_error + run_outcome" where
  "run_analysis mqtt_events ftp_events =
     (if mqtt_events = [] then Inr No_mqtt_messages
      else if ftp_events = [] then Inr No_ftp_events
      else err_bind (analyze_transfers mqtt_events ftp_events 10 30) (\<lambda>analysis_results.
             if analysis_results = [] then Inr No_correlations
             else err_bind (summary_step analysis_results)
                    (\<lambda>summary. Inr (Report analysis_results summary))))"

section \<open>The packet table and \<^verbatim>\<open>calculate_metrics\<close> of \<^verbatim>\<open>mqtt_test_analyzer_ws.py\<close>\<close>

text \<open>
  A pandas \<^verbatim>\<open>DataFrame\<close> is a list of named columns of one length, with distinct names.
  A column carries one of the dtypes that \<^verbatim>\<open>analyze_tshark_capture\<close> gives it before the
  call (lines 245-256): for \<^verbatim>\<open>tcp.analysis.*\<close>, \<^verbatim>\<open>tcp.flags.*\<close> and \<^verbatim>\<open>frame.len\<close> either
  \<^verbatim>\<open>float64\<close> (\<open>NumCol\<close>, NaN as \<open>None\<close>) or, when the export had a number in every row,
  \<^verbatim>\<open>int64\<close> (\<open>IntCol\<close>, integers from \<open>- 2^63\<close> to \<open>2^63 - 1\<close>); strings for \<^verbatim>\<open>ip.*\<close> and
  \<^verbatim>\<open>ftp.*\<close>; for \<^verbatim>\<open>frame.time\<close> pandas timestamps, which count nanoseconds since the epoch
  (NaT as \<open>None\<close>). Where an operation meets a column of another dtype and pandas raises,
  the model returns \<open>TypeError\<close> (arithmetic) or \<open>AttributeError\<close> (the \<^verbatim>\<open>.str\<close> accessor);
  what pandas does with a column of mixed objects is not modelled further.
\<close>

type_synonym pd_timestamp = int

datatype column =
    NumCol "rat option list"
  | IntCol "int list"
  | StrCol "string list"
  | TimeCol "pd_timestamp option list"

text \<open>A number taken out of a column: a float, or an \<^verbatim>\<open>int64\<close>, whose arithmetic wraps
  around.\<close>

datatype scalar = Float rat | Int64 int

definition int64_wrap :: "int \<Rightarrow> int" where
  "int64_wrap x = (x + 2 ^ 63) mod 2 ^ 64 - 2 ^ 63"

type_synonym dataframe = "(string \<times> column) list"

text \<open>
  Lines 204-205: \<^verbatim>\<open>ts.strftime('%Y-%m-%d %H:%M:%S.%f')[:-3]\<close> writes the instant with its
  microseconds and cuts the last three digits, so the text shows the instant cut down to
  whole milliseconds and nothing else of it. The text is kept as that number of
  milliseconds since the epoch.
\<close>

definition strftime_ms :: "pd_timestamp \<Rightarrow> int" where
  "strftime_ms t = t div 1000000"

text \<open>The dictionary \<^verbatim>\<open>metrics\<close> that the function returns. The empty string that the
  source writes for NaT is \<open>None\<close>.\<close>

record metrics =
  total_retransmissions :: int
  zero_window_count :: int
  window_full_count :: int
  lost_segments_count :: int
  duplicate_ack_count :: int
  measured_throughput_Mbps :: rat
  avg_rtt_ms :: rat
  ftp_conn_opened_timestamp :: "int option"
  ftp_conn_closed_timestamp :: "int option"

text \<open>\<^verbatim>\<open>name in df.columns\<close> and \<^verbatim>\<open>df[name]\<close>, which raises \<^verbatim>\<open>KeyError\<close> on a missing column.\<close>

definition has_column :: "dataframe \<Rightarrow> string \<Rightarrow> bool" where
  "has_column df name = (map_of df name \<noteq> None)"

definition getitem :: "dataframe \<Rightarrow> string \<Rightarrow> py_error + column" where
  "getitem df name = (case map_of df name of None \<Rightarrow> Inl (KeyError name) | Some c \<Rightarrow> Inr c)"

text \<open>\<^verbatim>\<open>Series.dropna()\<close>, and \<^verbatim>\<open>Series.sum()\<close>, which skips NaN and, on \<^verbatim>\<open>int64\<close>, wraps
  around.\<close>

fun dropna :: "'a option list \<Rightarrow> 'a list" where
  "dropna [] = []"
| "dropna (None # xs) = dropna xs"
| "dropna (Some x # xs) = x # dropna xs"

definition col_sum :: "column \<Rightarrow> py_error + scalar" where
  "col_sum c =
     (case c of
        NumCol xs \<Rightarrow> Inr (Float (sum_list (dropna xs)))
      | IntCol ns \<Rightarrow> Inr (Int64 (int64_wrap (sum_list ns)))
      | _ \<Rightarrow> Inl TypeError)"

text \<open>\<^verbatim>\<open>int(x)\<close> of a float truncates towards zero.\<close>

definition py_int :: "scalar \<Rightarrow> int" where
  "py_int v = (case v of Float x \<Rightarrow> (if 0 \<le> x then \<lfloor>x\<rfloor> else \<lceil>x\<rceil>) | Int64 n \<Rightarrow> n)"

text \<open>Lines 162-166, one counter:
  \<^verbatim>\<open>int(df[name].sum()) if name in df.columns else 0\<close>.\<close>

definition flag_count :: "dataframe \<Rightarrow> string \<Rightarrow> py_error + int" where
  "flag_count df name =
     (if has_column df name
      then err_bind (getitem df name) (\<lambda>c. err_bind (col_sum c) (\<lambda>s. Inr (py_int s)))
      else Inr 0)"

text \<open>Lines 169-173. \<^verbatim>\<open>total_bytes * 8\<close> stays in the dtype of the sum, so it wraps around
  on \<^verbatim>\<open>int64\<close>; the division by the float gives a float.\<close>

definition times_8 :: "scalar \<Rightarrow> scalar" where
  "times_8 v = (case v of Float x \<Rightarrow> Float (x * 8) | Int64 n \<Rightarrow> Int64 (int64_wrap (n * 8)))"

definition to_float :: "scalar \<Rightarrow> rat" where
  "to_float v = (case v of Float x \<Rightarrow> x | Int64 n \<Rightarrow> of_int n)"

definition throughput_Mbps :: "dataframe \<Rightarrow> rat \<Rightarrow> py_error + rat" where
  "throughput_Mbps df duration_s =
     (if duration_s > 0 \<and> has_column df ''frame.len''
      then err_bind (getitem df ''frame.len'') (\<lambda>c. err_bind (col_sum c) (\<lambda>total_bytes.
             Inr (to_float (times_8 total_bytes) / (duration_s * 1024 * 1024))))
      else Inr 0)"

text \<open>Lines 176-179: the mean of the samples that are not NaN, taken in floats, in
  milliseconds.
  \<^verbatim>\<open>rtt_field\<close> is \<^verbatim>\<open>None\<close> when \<^verbatim>\<open>get_rtt_field_name\<close> found no field, and \<^verbatim>\<open>None\<close> is the
  name of no column.\<close>

definition col_mean_ms :: "column \<Rightarrow> py_error + rat" where
  "col_mean_ms c =
     (case c of
        NumCol xs \<Rightarrow>
          (if dropna xs = [] then Inr 0
           else Inr (sum_list (dropna xs) / of_nat (length (dropna xs)) * 1000))
      | IntCol ns \<Rightarrow>
          (if ns = [] then Inr 0
           else Inr (of_int (sum_list ns) / of_nat (length ns) * 1000))
      | StrCol xs \<Rightarrow> (if xs = [] then Inr 0 else Inl TypeError)
      | TimeCol ts \<Rightarrow> (if dropna ts = [] then Inr 0 else Inl TypeError))"

definition rtt_ms :: "dataframe \<Rightarrow> string option \<Rightarrow> py_error + rat" where
  "rtt_ms df rtt_field =
     (case rtt_field of
        None \<Rightarrow> Inr 0
      | Some name \<Rightarrow>
          if has_column df name then err_bind (getitem df name) col_mean_ms else Inr 0)"

text \<open>Row selections are lists of truth values, one per row: \<^verbatim>\<open>series == 1\<close>,
  \<^verbatim>\<open>series.isin(values)\<close>, \<^verbatim>\<open>&\<close> and \<^verbatim>\<open>|\<close>, and \<^verbatim>\<open>df[selection][column]\<close>.\<close>

definition eq_one :: "column \<Rightarrow> bool list" where
  "eq_one c = (case c of
                 NumCol xs \<Rightarrow> map (\<lambda>v. v = Some 1) xs
               | IntCol ns \<Rightarrow> map (\<lambda>n. n = 1) ns
               | StrCol xs \<Rightarrow> map (\<lambda>_. False) xs
               | TimeCol ts \<Rightarrow> map (\<lambda>_. False) ts)"

definition isin :: "column \<Rightarrow> string list \<Rightarrow> bool list" where
  "isin c vals = (case c of
                    StrCol xs \<Rightarrow> map (\<lambda>s. s \<in> set vals) xs
                  | NumCol xs \<Rightarrow> map (\<lambda>_. False) xs
                  | IntCol ns \<Rightarrow> map (\<lambda>_. False) ns
                  | TimeCol ts \<Rightarrow> map (\<lambda>_. False) ts)"

definition mask_and :: "bool list \<Rightarrow> bool list \<Rightarrow> bool list" where
  "mask_and a b = map2 (\<and>) a b"

definition mask_or :: "bool list \<Rightarrow> bool list \<Rightarrow> bool list" where
  "mask_or a b = map2 (\<or>) a b"

definition select_rows :: "bool list \<Rightarrow> 'a list \<Rightarrow> 'a list" where
  "select_rows sel xs = map snd (filter fst (zip sel xs))"

text \<open>\<^verbatim>\<open>Series.min()\<close> and \<^verbatim>\<open>Series.max()\<close> skip NaT and give NaT when nothing is left.\<close>

definition series_min :: "pd_timestamp option list \<Rightarrow> pd_timestamp option" where
  "series_min ts = (if dropna ts = [] then None else Some (Min (set (dropna ts))))"

definition series_max :: "pd_timestamp option list \<Rightarrow> pd_timestamp option" where
  "series_max ts = (if dropna ts = [] then None else Some (Max (set (dropna ts))))"

text \<open>\<^verbatim>\<open>events['frame.time']\<close> for the selected rows: the column is looked up without a
  test for its presence.\<close>

definition frame_time :: "dataframe \<Rightarrow> bool list \<Rightarrow> py_error + pd_timestamp option list" where
  "frame_time df sel =
     err_bind (getitem df ''frame.time'')
       (\<lambda>c. case c of TimeCol ts \<Rightarrow> Inr (select_rows sel ts) | _ \<Rightarrow> Inl TypeError)"

text \<open>Lines 183-186. The selection is non-empty (\<^verbatim>\<open>not syn_events.empty\<close>) when some row
  is selected.\<close>

definition primary_opened_ts :: "dataframe \<Rightarrow> string list \<Rightarrow> py_error + pd_timestamp option" where
  "primary_opened_ts df camera_ips =
     (if has_column df ''tcp.flags.syn'' \<and> has_column df ''ip.src'' then
        err_bind (getitem df ''tcp.flags.syn'') (\<lambda>syn.
        err_bind (getitem df ''ip.src'') (\<lambda>src.
          let syn_events = mask_and (eq_one syn) (isin src camera_ips)
          in if True \<in> set syn_events
             then err_bind (frame_time df syn_events) (\<lambda>ts. Inr (series_min ts))
             else Inr None))
      else Inr None)"

text \<open>Lines 188-191. The columns are read in the order of the expression:
  \<^verbatim>\<open>tcp.flags.fin\<close>, \<^verbatim>\<open>tcp.flags.reset\<close>, \<^verbatim>\<open>ip.src\<close>, \<^verbatim>\<open>ip.dst\<close>.\<close>

definition primary_closed_ts :: "dataframe \<Rightarrow> string list \<Rightarrow> py_error + pd_timestamp option" where
  "primary_closed_ts df camera_ips =
     (if has_column df ''tcp.flags.fin'' \<and> has_column df ''ip.src'' \<and> has_column df ''ip.dst''
      then
        err_bind (getitem df ''tcp.flags.fin'') (\<lambda>fin.
        err_bind (getitem df ''tcp.flags.reset'') (\<lambda>rst.
        err_bind (getitem df ''ip.src'') (\<lambda>src.
        err_bind (getitem df ''ip.dst'') (\<lambda>dst.
          let fin_rst_events =
                mask_and (mask_or (eq_one fin) (eq_one rst))
                         (mask_or (isin src camera_ips) (isin dst camera_ips))
          in if True \<in> set fin_rst_events
             then err_bind (frame_time df fin_rst_events) (\<lambda>ts. Inr (series_max ts))
             else Inr None))))
      else Inr None)"

text \<open>\<^verbatim>\<open>str.upper()\<close> on ASCII letters, \<^verbatim>\<open>str.startswith\<close>, and \<^verbatim>\<open>str.contains\<close> for a
  pattern without regular-expression operators.\<close>

definition upper_char :: "char \<Rightarrow> char" where
  "upper_char c =
     (let n = (of_char c :: nat) in if 97 \<le> n \<and> n \<le> 122 then char_of (n - 32) else c)"

fun str_startswith :: "string \<Rightarrow> string \<Rightarrow> bool" where
  "str_startswith s [] = True"
| "str_startswith [] (p # ps) = False"
| "str_startswith (c # cs) (p # ps) = (c = p \<and> str_startswith cs ps)"

fun str_contains :: "string \<Rightarrow> string \<Rightarrow> bool" where
  "str_contains [] pat = (pat = [])"
| "str_contains (c # cs) pat = (str_startswith (c # cs) pat \<or> str_contains cs pat)"

definition col_startswith :: "column \<Rightarrow> string list \<Rightarrow> py_error + bool list" where
  "col_startswith c prefixes =
     (case c of
        StrCol xs \<Rightarrow> Inr (map (\<lambda>s. \<exists>p\<in>set prefixes. str_startswith s p) xs)
      | _ \<Rightarrow> Inl AttributeError)"

definition col_upper_contains :: "column \<Rightarrow> string \<Rightarrow> py_error + bool list" where
  "col_upper_contains c pat =
     (case c of
        StrCol xs \<Rightarrow> Inr (map (\<lambda>s. str_contains (map upper_char s) pat) xs)
      | _ \<Rightarrow> Inl AttributeError)"

text \<open>Lines 194-197 and 199-202: the fallback to the FTP columns. A column fetched with
  \<^verbatim>\<open>df.get(name, pd.Series(dtype=str))\<close> that is absent selects no row.\<close>

definition fallback_opened_ts ::
  "dataframe \<Rightarrow> pd_timestamp option \<Rightarrow> py_error + pd_timestamp option" where
  "fallback_opened_ts df opened_ts =
     (if opened_ts = None \<and> has_column df ''ftp.response.code'' then
        err_bind (getitem df ''ftp.response.code'') (\<lambda>code.
        err_bind (col_startswith code [''220'', ''230'']) (\<lambda>by_code.
        err_bind (case map_of df ''ftp.request.command'' of
                    None \<Rightarrow> Inr (map (\<lambda>_. False) by_code)
                  | Some cmd \<Rightarrow> col_upper_contains cmd ''USER'') (\<lambda>by_command.
          let ftp_open_events = mask_or by_code by_command
          in if True \<in> set ftp_open_events
             then err_bind (frame_time df ftp_open_events) (\<lambda>ts. Inr (series_min ts))
             else Inr opened_ts)))
      else Inr opened_ts)"

definition fallback_closed_ts ::
  "dataframe \<Rightarrow> pd_timestamp option \<Rightarrow> py_error + pd_timestamp option" where
  "fallback_closed_ts df closed_ts =
     (if closed_ts = None \<and> has_column df ''ftp.request.command'' then
        err_bind (getitem df ''ftp.request.command'') (\<lambda>cmd.
        err_bind (col_upper_contains cmd ''QUIT'') (\<lambda>by_command.
        err_bind (case map_of df ''ftp.response.code'' of
                    None \<Rightarrow> Inr (map (\<lambda>_. False) by_command)
                  | Some code \<Rightarrow> col_startswith code [''221'']) (\<lambda>by_code.
          let ftp_close_events = mask_or by_command by_code
          in if True \<in> set ftp_close_events
             then err_bind (frame_time df ftp_close_events) (\<lambda>ts. Inr (series_max ts))
             else Inr closed_ts)))
      else Inr closed_ts)"

text \<open>Lines 154-207, statement by statement.\<close>

definition calculate_metrics ::
  "dataframe \<Rightarrow> rat \<Rightarrow> string option \<Rightarrow> string list \<Rightarrow> py_error + metrics" where
  "calculate_metrics df duration_s rtt_field camera_ips =
     err_bind (flag_count df ''tcp.analysis.retransmission'') (\<lambda>retransmissions.
     err_bind (flag_count df ''tcp.analysis.zero_window'') (\<lambda>zero_window.
     err_bind (flag_count df ''tcp.analysis.window_full'') (\<lambda>window_full.
     err_bind (flag_count df ''tcp.analysis.lost_segment'') (\<lambda>lost_segments.
     err_bind (flag_count df ''tcp.analysis.duplicate_ack'') (\<lambda>duplicate_ack.
     err_bind (throughput_Mbps df duration_s) (\<lambda>throughput.
     err_bind (rtt_ms df rtt_field) (\<lambda>rtt.
     err_bind (primary_opened_ts df camera_ips) (\<lambda>opened_primary.
     err_bind (primary_closed_ts df camera_ips) (\<lambda>closed_primary.
     err_bind (fallback_opened_ts df opened_primary) (\<lambda>opened_ts.
     err_bind (fallback_closed_ts df closed_primary) (\<lambda>closed_ts.
       Inr \<lparr> total_retransmissions = retransmissions,
             zero_window_count = zero_window,
             window_full_count = window_full,
             lost_segments_count = lost_segments,
             duplicate_ack_count = duplicate_ack,
             measured_throughput_Mbps = throughput,
             avg_rtt_ms = rtt,
             ftp_conn_opened_timestamp = map_option strftime_ms opened_ts,
             ftp_conn_closed_timestamp = map_option strftime_ms closed_ts \<rparr>)))))))))))"

section \<open>Notions of the specification\<close>


definition in_start_window :: "datetime \<Rightarrow> timedelta \<Rightarrow> ftp_event \<Rightarrow> bool" where
  "in_start_window signal_on tol e =
     (type e = STOR \<and> signal_on \<le> timestamp e \<and> timestamp e \<le> signal_on + tol)"

text \<open>A TRANSFER_COMPLETE completes a start when it is strictly later; the first
  SIGNAL_OFF after a SIGNAL_ON is the first \<^verbatim>\<open>'false'\<close> among the events behind it.\<close>

definition completes_after :: "datetime \<Rightarrow> ftp_event \<Rightarrow> bool" where
  "completes_after stor_ts e = (type e = COMPLETION \<and> stor_ts < timestamp e)"

definition first_signal_off :: "mqtt_event list \<Rightarrow> datetime option" where
  "first_signal_off later = map_option timestamp (find (\<lambda>e. type e = MQTT_false) later)"

text \<open>The earliest and the latest instant of a set, undetermined for the empty set.\<close>

definition earliest :: "int set \<Rightarrow> int option" where
  "earliest S = (if S = {} then None else Some (Min S))"

definition latest :: "int set \<Rightarrow> int option" where
  "latest S = (if S = {} then None else Some (Max S))"

text \<open>
  Following the specification's words for the primary open timestamp: the earliest timestamp
  among the rows with the SYN flag set whose source or destination address is in the address
  set.
\<close>

definition claimed_primary_opened_ts :: "dataframe \<Rightarrow> string list \<Rightarrow> pd_timestamp option" where
  "claimed_primary_opened_ts df address_set =
     (case (map_of df ''tcp.flags.syn'', map_of df ''ip.src'', map_of df ''ip.dst'',
            map_of df ''frame.time'') of
        (Some (NumCol syn), Some (StrCol src), Some (StrCol dst), Some (TimeCol time)) \<Rightarrow>
          series_min [t. (s, a, b, t) \<leftarrow> zip syn (zip src (zip dst time)),
                         s = Some 1 \<and> (a \<in> set address_set \<or> b \<in> set address_set)]
      | _ \<Rightarrow> None)"

text \<open>The columns that the packet-table contract calls optional, by their names in the
  source.\<close>

definition optional_columns :: "string list" where
  "optional_columns =
     [''frame.len'', ''frame.time'', ''ip.src'', ''ip.dst'',
      ''tcp.flags.syn'', ''tcp.flags.fin'', ''tcp.flags.reset'',
      ''tcp.analysis.retransmission'', ''tcp.analysis.zero_window'',
      ''tcp.analysis.window_full'', ''tcp.analysis.lost_segment'',
      ''tcp.analysis.duplicate_ack'', ''ftp.request.command'', ''ftp.response.code'']"

section \<open>Concrete runs\<close>

text \<open>Events at given instants, and the scenarios of the specification. The instants are
  those of the first day of the calendar, counted from its \<^verbatim>\<open>00:00:00.000\<close>; the tolerances
  of the runs are 10 and 30 seconds.\<close>

definition mqtt_msg :: "mqtt_type \<Rightarrow> datetime \<Rightarrow> mqtt_event" where
  "mqtt_msg k t = \<lparr> type = k, timestamp = t \<rparr>"

definition ftp_msg :: "ftp_type \<Rightarrow> datetime \<Rightarrow> ftp_event" where
  "ftp_msg k t = \<lparr> type = k, timestamp = t,
                   ftp_event.filename = (if k = STOR then Some ''img.jpg'' else None) \<rparr>"

definition scenario_A_mqtt :: "mqtt_event list" where
  "scenario_A_mqtt = [mqtt_msg MQTT_true 0]"

definition scenario_A_ftp_inside :: "ftp_event list" where
  "scenario_A_ftp_inside = [ftp_msg STOR (seconds 10), ftp_msg COMPLETION (seconds 12)]"

definition scenario_A_ftp_outside :: "ftp_event list" where
  "scenario_A_ftp_outside =
     [ftp_msg STOR (seconds 10 + milliseconds 1), ftp_msg COMPLETION (seconds 12)]"

definition scenario_B_mqtt :: "mqtt_event list" where
  "scenario_B_mqtt = [mqtt_msg MQTT_true 0, mqtt_msg MQTT_false (seconds 4)]"

definition scenario_B_ftp :: "ftp_event list" where
  "scenario_B_ftp = [ftp_msg STOR (seconds 2), ftp_msg COMPLETION (seconds 5)]"

definition scenario_C_mqtt :: "mqtt_event list" where
  "scenario_C_mqtt = [mqtt_msg MQTT_true 0, mqtt_msg MQTT_false (seconds 4),
                      mqtt_msg MQTT_true (milliseconds 4500)]"

definition scenario_C_ftp :: "ftp_event list" where
  "scenario_C_ftp = [ftp_msg STOR (seconds 2), ftp_msg COMPLETION (seconds 5),
                     ftp_msg STOR (seconds 6), ftp_msg COMPLETION (seconds 8)]"

text \<open>A completion at the very instant of the STOR, followed by a later one; and the same
  without the later one.\<close>

definition scenario_tie_ftp :: "ftp_event list" where
  "scenario_tie_ftp = [ftp_msg STOR (seconds 2), ftp_msg COMPLETION (seconds 2),
                       ftp_msg COMPLETION (seconds 5)]"

definition scenario_tie_only_ftp :: "ftp_event list" where
  "scenario_tie_only_ftp = [ftp_msg STOR (seconds 2), ftp_msg COMPLETION (seconds 2)]"



text \<open>A signal at 9999-12-31 23:59:55.000, five seconds before the end of the range of
  \<^verbatim>\<open>datetime\<close>.\<close>

definition last_seconds_mqtt :: "mqtt_event list" where
  "last_seconds_mqtt = [mqtt_msg MQTT_true (datetime_max + 1 - seconds 5)]"

text \<open>Packet tables, with instants in nanoseconds: one with the FIN flag and both addresses
  but no \<^verbatim>\<open>tcp.flags.reset\<close> column, one with a SYN row but no \<^verbatim>\<open>frame.time\<close> column, and one
  in which the first SYN goes to the camera \<^verbatim>\<open>10.0.0.5\<close> and the second comes from it.\<close>

definition pd_seconds :: "int \<Rightarrow> pd_timestamp" where
  "pd_seconds s = s * 1000000000"

definition table_without_reset :: dataframe where
  "table_without_reset =
     [(''frame.time'', TimeCol [Some 0, Some (pd_seconds 3)]),
      (''ip.src'', StrCol [''10.0.0.5'', ''10.0.0.5'']),
      (''ip.dst'', StrCol [''10.0.0.9'', ''10.0.0.9'']),
      (''tcp.flags.syn'', NumCol [Some 1, Some 0]),
      (''tcp.flags.fin'', NumCol [Some 0, Some 1])]"

definition table_without_frame_time :: dataframe where
  "table_without_frame_time =
     [(''ip.src'', StrCol [''10.0.0.5'']),
      (''tcp.flags.syn'', NumCol [Some 1])]"

definition table_syn_to_camera :: dataframe where
  "table_syn_to_camera =
     [(''frame.time'', TimeCol [Some (pd_seconds 1), Some (pd_seconds 2), Some (pd_seconds 7)]),
      (''ip.src'', StrCol [''10.0.0.9'', ''10.0.0.5'', ''10.0.0.9'']),
      (''ip.dst'', StrCol [''10.0.0.5'', ''10.0.0.9'', ''10.0.0.5'']),
      (''tcp.flags.syn'', NumCol [Some 1, Some 1, Some 0]),
      (''tcp.flags.fin'', NumCol [Some 0, Some 0, Some 1]),
      (''tcp.flags.reset'', NumCol [Some 0, Some 0, Some 0])]"

section \<open>Evaluation and basic facts\<close>

lemmas scenario_defs =
  scenario_A_mqtt_def scenario_A_ftp_inside_def scenario_A_ftp_outside_def
  scenario_B_mqtt_def scenario_B_ftp_def scenario_C_mqtt_def scenario_C_ftp_def
  mqtt_msg_def ftp_msg_def seconds_def milliseconds_def

lemma err_bind_Inl [simp]: "err_bind (Inl e) f = Inl e"
  by (simp add: err_bind_def)

lemma err_bind_Inr [simp]: "err_bind (Inr v) f = f v"
  by (simp add: err_bind_def)

lemma err_bind_eq_Inr: "err_bind m f = Inr y \<longleftrightarrow> (\<exists>v. m = Inr v \<and> f v = Inr y)"
  by (cases m) simp_all

lemma err_bind_eq_Inl:
  "err_bind m f = Inl e \<longleftrightarrow> m = Inl e \<or> (\<exists>v. m = Inr v \<and> f v = Inl e)"
  by (cases m) simp_all

lemma timedelta_seconds_10 [simp]: "timedelta_seconds 10 = Inr 10000000"
  by code_simp

lemmas run_defs =
  analyze_transfers_def analyze_true_event_def datetime_add_def datetime_min_def
  datetime_max_def match_in_window_def relevant_stors_def Let_def total_seconds_def

lemma total_seconds_le [simp]: "total_seconds a \<le> total_seconds b \<longleftrightarrow> a \<le> b"
  by (simp add: total_seconds_def divide_le_cancel)

lemma total_seconds_pos [simp]: "0 < total_seconds a \<longleftrightarrow> 0 < a"
  by (simp add: total_seconds_def)

lemma total_seconds_nonneg [simp]: "0 \<le> total_seconds a \<longleftrightarrow> 0 \<le> a"
  by (simp add: total_seconds_def)

lemma find_of_filter_Cons: "filter P xs = x # rest \<Longrightarrow> find P xs = Some x"
  by (induction xs) (auto split: if_splits)

lemma find_sorted_least:
  assumes "sorted (map timestamp xs)" and "find P xs = Some x" and "c \<in> set xs" and "P c"
  shows "timestamp x \<le> timestamp c"
proof -
  from assms(2) obtain i where i: "i < length xs" "x = xs ! i" "\<forall>j<i. \<not> P (xs ! j)"
    unfolding find_Some_iff by blast
  from assms(3) obtain n where n: "n < length xs" "c = xs ! n"
    by (auto simp: in_set_conv_nth)
  have "i \<le> n" using i(3) n(2) assms(4) by (meson not_le_imp_less)
  then have "map timestamp xs ! i \<le> map timestamp xs ! n"
    using assms(1) n(1) by (simp add: sorted_iff_nth_mono)
  then show ?thesis using i n by simp
qed

subsection \<open>Rounding the tolerance\<close>

lemma round_half_even_of_int [simp]: "round_half_even (of_int n) = n"
  by (simp add: round_half_even_def)




lemma timedelta_seconds_error: "timedelta_seconds x = Inl err \<Longrightarrow> err = OverflowError"
  by (auto simp: timedelta_seconds_def Let_def split: if_splits)

lemma datetime_add_Inr: "datetime_add t d = Inr w \<Longrightarrow> w = t + d"
  by (auto simp: datetime_add_def split: if_splits)

lemma datetime_add_error: "datetime_add t d = Inl err \<Longrightarrow> err = OverflowError"
  by (auto simp: datetime_add_def split: if_splits)

subsection \<open>The searches of one iteration\<close>

lemma relevant_stors_find:
  "relevant_stors ftp_events t (t + tol) = stor # rest \<Longrightarrow>
     find (in_start_window t tol) ftp_events = Some stor"
  unfolding relevant_stors_def in_start_window_def by (rule find_of_filter_Cons)


lemma start_window_bounds:
  assumes "find (in_start_window t tol) ftp_events = Some stor"
  shows "t \<le> timestamp stor" and "timestamp stor \<le> t + tol"
  using assms unfolding find_Some_iff in_start_window_def by auto


lemma first_completion_after_find:
  "first_completion_after ftp_events t = find (completes_after t) ftp_events"
  by (induction ftp_events) (auto simp: completes_after_def)

lemma completes_after_bound:
  assumes "find (completes_after t) ftp_events = Some c"
  shows "t < timestamp c" and "type c = COMPLETION"
  using assms unfolding find_Some_iff completes_after_def by auto

lemma next_false_mqtt_find: "next_false_mqtt later = first_signal_off later"
  by (induction later) (auto simp: first_signal_off_def)

subsection \<open>The record of one iteration\<close>

lemma match_in_window_fields:
  assumes "match_in_window e later ftp_events w tc lc = Some r"
  shows "\<exists>stor rest comp.
    relevant_stors ftp_events (timestamp e) w = stor # rest \<and>
    first_completion_after ftp_events (timestamp stor) = Some comp \<and>
    mqtt_true_time r = timestamp e \<and>
    ftp_stor_time r = timestamp stor \<and>
    ftp_completion_time r = timestamp comp \<and>
    transfer_duration_seconds r = total_seconds (timestamp comp - timestamp stor) \<and>
    time_true_to_transfer_start_seconds r = total_seconds (timestamp stor - timestamp e) \<and>
    next_false_mqtt_time r = next_false_mqtt later \<and>
    transfer_completed_after_false_signal r =
      (case next_false_mqtt later of None \<Rightarrow> False | Some off \<Rightarrow> off < timestamp comp) \<and>
    time_overlap_after_false_signal_seconds r =
      (case next_false_mqtt later of None \<Rightarrow> None
       | Some off \<Rightarrow> if off < timestamp comp then Some (total_seconds (timestamp comp - off)) else None) \<and>
    overlapped_with_previous_transfer r =
      (case lc of None \<Rightarrow> False | Some l \<Rightarrow> timestamp e < l)"
  using assms unfolding match_in_window_def Let_def
  by (auto split: list.splits option.splits)

lemma analyze_true_event_Inr:
  assumes "analyze_true_event e later ftp_events ts tc lc = Inr res"
  shows "\<exists>td. timedelta_seconds ts = Inr td
           \<and> datetime_add (timestamp e) td = Inr (timestamp e + td)
           \<and> res = match_in_window e later ftp_events (timestamp e + td) tc lc"
proof -
  from assms obtain td w where td: "timedelta_seconds ts = Inr td"
    and w: "datetime_add (timestamp e) td = Inr w"
    and res: "res = match_in_window e later ftp_events w tc lc"
    unfolding analyze_true_event_def err_bind_eq_Inr by auto
  from datetime_add_Inr [OF w] have "w = timestamp e + td" .
  with td w res show ?thesis by blast
qed

lemma analyze_true_event_error:
  "analyze_true_event e later ftp_events ts tc lc = Inl err \<Longrightarrow> err = OverflowError"
  unfolding analyze_true_event_def err_bind_eq_Inl
  by (auto dest: timedelta_seconds_error datetime_add_error)

lemma analyze_true_event_fields:
  assumes "analyze_true_event e later ftp_events ts tc lc = Inr (Some r)"
  shows "\<exists>td stor rest comp.
    timedelta_seconds ts = Inr td \<and>
    relevant_stors ftp_events (timestamp e) (timestamp e + td) = stor # rest \<and>
    first_completion_after ftp_events (timestamp stor) = Some comp \<and>
    mqtt_true_time r = timestamp e \<and>
    ftp_stor_time r = timestamp stor \<and>
    ftp_completion_time r = timestamp comp \<and>
    transfer_duration_seconds r = total_seconds (timestamp comp - timestamp stor) \<and>
    time_true_to_transfer_start_seconds r = total_seconds (timestamp stor - timestamp e) \<and>
    next_false_mqtt_time r = next_false_mqtt later \<and>
    transfer_completed_after_false_signal r =
      (case next_false_mqtt later of None \<Rightarrow> False | Some off \<Rightarrow> off < timestamp comp) \<and>
    time_overlap_after_false_signal_seconds r =
      (case next_false_mqtt later of None \<Rightarrow> None
       | Some off \<Rightarrow> if off < timestamp comp then Some (total_seconds (timestamp comp - off)) else None) \<and>
    overlapped_with_previous_transfer r =
      (case lc of None \<Rightarrow> False | Some l \<Rightarrow> timestamp e < l)"
proof -
  from analyze_true_event_Inr [OF assms] obtain td where td: "timedelta_seconds ts = Inr td"
    and m: "match_in_window e later ftp_events (timestamp e + td) tc lc = Some r" by auto
  from match_in_window_fields [OF m] td show ?thesis by blast
qed

lemma analyze_true_event_start:
  assumes "analyze_true_event e later ftp_events ts tc lc = Inr (Some r)"
  shows "mqtt_true_time r = timestamp e"
    and "\<exists>td. timedelta_seconds ts = Inr td
           \<and> map_option timestamp (find (in_start_window (timestamp e) td) ftp_events)
               = Some (ftp_stor_time r)"
    and "map_option timestamp (find (completes_after (ftp_stor_time r)) ftp_events)
           = Some (ftp_completion_time r)"
proof -
  from analyze_true_event_fields [OF assms] obtain td stor rest comp where f:
    "timedelta_seconds ts = Inr td"
    "relevant_stors ftp_events (timestamp e) (timestamp e + td) = stor # rest"
    "first_completion_after ftp_events (timestamp stor) = Some comp"
    "mqtt_true_time r = timestamp e" "ftp_stor_time r = timestamp stor"
    "ftp_completion_time r = timestamp comp" by blast
  show "mqtt_true_time r = timestamp e" by (rule f(4))
  have "map_option timestamp (find (in_start_window (timestamp e) td) ftp_events)
           = Some (ftp_stor_time r)"
    using relevant_stors_find [OF f(2)] f(5) by simp
  with f(1) show "\<exists>td. timedelta_seconds ts = Inr td
           \<and> map_option timestamp (find (in_start_window (timestamp e) td) ftp_events)
               = Some (ftp_stor_time r)" by blast
  show "map_option timestamp (find (completes_after (ftp_stor_time r)) ftp_events)
           = Some (ftp_completion_time r)"
    using f(3) f(5) f(6) by (simp add: first_completion_after_find)
qed


lemma analyze_true_event_bounds:
  assumes "analyze_true_event e later ftp_events ts tc lc = Inr (Some r)"
  shows "mqtt_true_time r \<le> ftp_stor_time r"
    and "\<exists>td. timedelta_seconds ts = Inr td \<and> ftp_stor_time r \<le> mqtt_true_time r + td"
    and "ftp_stor_time r < ftp_completion_time r"
    and "time_true_to_transfer_start_seconds r = total_seconds (ftp_stor_time r - mqtt_true_time r)"
    and "transfer_duration_seconds r = total_seconds (ftp_completion_time r - ftp_stor_time r)"
proof -
  from analyze_true_event_fields [OF assms] obtain td stor rest comp where f:
    "timedelta_seconds ts = Inr td"
    "relevant_stors ftp_events (timestamp e) (timestamp e + td) = stor # rest"
    "first_completion_after ftp_events (timestamp stor) = Some comp"
    "mqtt_true_time r = timestamp e" "ftp_stor_time r = timestamp stor"
    "ftp_completion_time r = timestamp comp"
    "transfer_duration_seconds r = total_seconds (timestamp comp - timestamp stor)"
    "time_true_to_transfer_start_seconds r = total_seconds (timestamp stor - timestamp e)"
    by blast
  note w = start_window_bounds [OF relevant_stors_find [OF f(2)]]
  show "mqtt_true_time r \<le> ftp_stor_time r" using w(1) f(4,5) by simp
  have "ftp_stor_time r \<le> mqtt_true_time r + td" using w(2) f(4,5) by simp
  with f(1) show "\<exists>td. timedelta_seconds ts = Inr td \<and> ftp_stor_time r \<le> mqtt_true_time r + td"
    by blast
  show "ftp_stor_time r < ftp_completion_time r"
    using completes_after_bound(1) [of "timestamp stor" ftp_events comp] f(3,5,6)
    by (simp add: first_completion_after_find)
  show "time_true_to_transfer_start_seconds r = total_seconds (ftp_stor_time r - mqtt_true_time r)"
    using f by simp
  show "transfer_duration_seconds r = total_seconds (ftp_completion_time r - ftp_stor_time r)"
    using f by simp
qed

subsection \<open>The loop\<close>

lemma analyze_loop_skip:
  assumes "type e \<noteq> MQTT_true \<or> analyze_true_event e later ftp_events ts tc lc = Inr None"
  shows "analyze_loop (e # later) ftp_events ts tc lc = analyze_loop later ftp_events ts tc lc"
  using assms by auto

lemma analyze_loop_emit:
  assumes "type e = MQTT_true"
    and "analyze_true_event e later ftp_events ts tc lc = Inr (Some res)"
  shows "analyze_loop (e # later) ftp_events ts tc lc =
           err_bind (analyze_loop later ftp_events ts tc (Some (ftp_completion_time res)))
             (\<lambda>rest. Inr (res # rest))"
  using assms by simp

lemma analyze_loop_Cons_Inr:
  assumes "analyze_loop (e # later) ftp_events ts tc lc = Inr rs"
  obtains (emit) res rest where "type e = MQTT_true"
      "analyze_true_event e later ftp_events ts tc lc = Inr (Some res)"
      "analyze_loop later ftp_events ts tc (Some (ftp_completion_time res)) = Inr rest"
      "rs = res # rest"
    | (skip) "type e \<noteq> MQTT_true \<or> analyze_true_event e later ftp_events ts tc lc = Inr None"
      "analyze_loop later ftp_events ts tc lc = Inr rs"
proof (cases "type e = MQTT_true")
  case False
  then show ?thesis using assms skip by simp
next
  case True
  show ?thesis
  proof (cases "analyze_true_event e later ftp_events ts tc lc")
    case (Inl err)
    then show ?thesis using True assms by simp
  next
    case (Inr res_opt)
    show ?thesis
    proof (cases res_opt)
      case None
      then show ?thesis using True Inr assms skip by simp
    next
      case (Some res)
      then obtain rest where
        "analyze_loop later ftp_events ts tc (Some (ftp_completion_time res)) = Inr rest"
        "rs = res # rest"
        using True Inr assms by (auto simp: err_bind_eq_Inr)
      then show ?thesis using True Inr Some emit by simp
    qed
  qed
qed

lemma analyze_loop_error:
  "analyze_loop mqtt_events ftp_events ts tc lc = Inl err \<Longrightarrow> err = OverflowError"
proof (induction mqtt_events arbitrary: lc)
  case Nil
  then show ?case by simp
next
  case (Cons e later)
  show ?case
  proof (cases "type e = MQTT_true")
    case False
    then show ?thesis using Cons by simp
  next
    case True
    show ?thesis
    proof (cases "analyze_true_event e later ftp_events ts tc lc")
      case (Inl err')
      then show ?thesis using True Cons.prems analyze_true_event_error by fastforce
    next
      case (Inr res_opt)
      then show ?thesis
        using True Cons by (cases res_opt) (auto simp: err_bind_eq_Inl)
    qed
  qed
qed

lemma analyze_loop_provenance:
  "analyze_loop mqtt_events ftp_events ts tc lc = Inr rs \<Longrightarrow> r \<in> set rs \<Longrightarrow>
     \<exists>earlier e later lc'. mqtt_events = earlier @ e # later \<and> type e = MQTT_true
        \<and> analyze_true_event e later ftp_events ts tc lc' = Inr (Some r)"
proof (induction mqtt_events arbitrary: lc rs)
  case Nil
  then show ?case by simp
next
  case (Cons e later)
  from Cons.prems(1) show ?case
  proof (cases rule: analyze_loop_Cons_Inr)
    case (emit res rest)
    show ?thesis
    proof (cases "r = res")
      case True
      then show ?thesis using emit(1,2)
        by (intro exI [of _ "[]"] exI [of _ e] exI [of _ later] exI [of _ lc]) simp
    next
      case False
      then have "r \<in> set rest" using Cons.prems(2) emit(4) by simp
      from Cons.IH [OF emit(3) this] obtain earlier e' later' lc'' where
        "later = earlier @ e' # later'" "type e' = MQTT_true"
        "analyze_true_event e' later' ftp_events ts tc lc'' = Inr (Some r)" by blast
      then show ?thesis
        by (intro exI [of _ "e # earlier"] exI [of _ e'] exI [of _ later'] exI [of _ lc'']) simp
    qed
  next
    case skip
    from Cons.IH [OF skip(2) Cons.prems(2)] obtain earlier e' later' lc'' where
      "later = earlier @ e' # later'" "type e' = MQTT_true"
      "analyze_true_event e' later' ftp_events ts tc lc'' = Inr (Some r)" by blast
    then show ?thesis
      by (intro exI [of _ "e # earlier"] exI [of _ e'] exI [of _ later'] exI [of _ lc'']) simp
  qed
qed

lemma analyze_transfers_provenance:
  assumes "analyze_transfers mqtt_events ftp_events ts tc = Inr rs" and "r \<in> set rs"
  obtains earlier e later lc where "mqtt_events = earlier @ e # later" "type e = MQTT_true"
    "analyze_true_event e later ftp_events ts tc lc = Inr (Some r)"
  using analyze_loop_provenance [OF assms(1) [unfolded analyze_transfers_def] assms(2)]
  by blast

lemma analyze_loop_overlap:
  "analyze_loop mqtt_events ftp_events ts tc lc = Inr rs \<Longrightarrow> k < length rs \<Longrightarrow>
     overlapped_with_previous_transfer (rs ! k) =
       (case (if k = 0 then lc else Some (ftp_completion_time (rs ! (k - 1))))
        of None \<Rightarrow> False
         | Some c \<Rightarrow> mqtt_true_time (rs ! k) < c)"
proof (induction mqtt_events arbitrary: lc k rs)
  case Nil
  then show ?case by simp
next
  case (Cons e later)
  from Cons.prems(1) show ?case
  proof (cases rule: analyze_loop_Cons_Inr)
    case skip
    from Cons.IH [OF skip(2) Cons.prems(2)] show ?thesis .
  next
    case (emit res rest)
    show ?thesis
    proof (cases k)
      case 0
      from analyze_true_event_fields [OF emit(2)]
      have "overlapped_with_previous_transfer res =
              (case lc of None \<Rightarrow> False | Some l \<Rightarrow> timestamp e < l)"
        and "mqtt_true_time res = timestamp e" by auto
      then show ?thesis unfolding emit(4) 0 by (simp split: option.split)
    next
      case (Suc k')
      then have "k' < length rest" using Cons.prems(2) emit(4) by simp
      from Cons.IH [OF emit(3) this] show ?thesis
        unfolding emit(4) Suc by (cases k') (simp_all split: option.split)
    qed
  qed
qed

lemma analyze_loop_length:
  "analyze_loop mqtt_events ftp_events ts tc lc = Inr rs \<Longrightarrow>
     length rs \<le> length (filter (\<lambda>e. type e = MQTT_true) mqtt_events)"
proof (induction mqtt_events arbitrary: lc rs)
  case Nil
  then show ?case by simp
next
  case (Cons e later)
  from Cons.prems show ?case
  proof (cases rule: analyze_loop_Cons_Inr)
    case (emit res rest)
    from Cons.IH [OF emit(3)] show ?thesis using emit(1,4) by simp
  next
    case skip
    from Cons.IH [OF skip(2)] show ?thesis by (simp add: le_SucI)
  qed
qed

lemma match_in_window_no_ftp: "match_in_window e later [] w tc lc = None"
  by (simp add: match_in_window_def relevant_stors_def)

lemma analyze_loop_no_ftp:
  "analyze_loop mqtt_events [] ts tc lc = Inr rs \<Longrightarrow> rs = []"
proof (induction mqtt_events arbitrary: lc rs)
  case Nil
  then show ?case by simp
next
  case (Cons e later)
  from Cons.prems show ?case
  proof (cases rule: analyze_loop_Cons_Inr)
    case (emit res rest)
    from analyze_true_event_Inr [OF emit(2)] show ?thesis
      by (simp add: match_in_window_no_ftp)
  next
    case skip
    from Cons.IH [OF skip(2)] show ?thesis .
  qed
qed

lemma analyze_loop_no_ftp_representable:
  assumes "\<forall>e\<in>set mqtt_events. type e = MQTT_true \<longrightarrow>
             (\<exists>td w. timedelta_seconds ts = Inr td \<and> datetime_add (timestamp e) td = Inr w)"
  shows "analyze_loop mqtt_events [] ts tc lc = Inr []"
  using assms
proof (induction mqtt_events arbitrary: lc)
  case Nil
  then show ?case by simp
next
  case (Cons e later)
  show ?case
  proof (cases "type e = MQTT_true")
    case False
    then show ?thesis using Cons by simp
  next
    case True
    then obtain td w where "timedelta_seconds ts = Inr td" "datetime_add (timestamp e) td = Inr w"
      using Cons.prems by auto
    then have "analyze_true_event e later [] ts tc lc = Inr None"
      by (simp add: analyze_true_event_def match_in_window_no_ftp)
    then show ?thesis using True Cons by simp
  qed
qed

subsection \<open>The scenarios, run\<close>


lemma scenario_A_outside_run:
  "analyze_transfers scenario_A_mqtt scenario_A_ftp_outside 10 30 = Inr []"
  by (simp add: scenario_defs run_defs)

lemma scenario_B_run:
  "map_sum id
     (map (\<lambda>r. (time_true_to_transfer_start_seconds r, transfer_duration_seconds r,
                 transfer_completed_after_false_signal r,
                 time_overlap_after_false_signal_seconds r)))
     (analyze_transfers scenario_B_mqtt scenario_B_ftp 10 30)
   = Inr [(2, 3, True, Some 1)]"
  by (simp add: scenario_defs run_defs)


lemma scenario_B_returns:
  "analyze_transfers scenario_B_mqtt scenario_B_ftp 10 30
     = Inr (projr (analyze_transfers scenario_B_mqtt scenario_B_ftp 10 30))"
  by (simp add: scenario_defs run_defs)

lemma scenario_C_returns:
  "analyze_transfers scenario_C_mqtt scenario_C_ftp 10 30
     = Inr (projr (analyze_transfers scenario_C_mqtt scenario_C_ftp 10 30))"
  by (simp add: scenario_defs run_defs)

section \<open>Start match\<close>




section \<open>Overlap with the previous transfer\<close>

text \<open>
  Claim C2. In a result that is returned, the record at position \<open>k\<close> is marked
  \<^verbatim>\<open>overlapped_with_previous_transfer\<close> exactly when there is a record before it and its
  \<^verbatim>\<open>mqtt_true_time\<close> is strictly earlier than the \<^verbatim>\<open>ftp_completion_time\<close> of the record at
  position \<open>k - 1\<close>, the one emitted immediately before. An event that emits nothing (it is
  not of type \<^verbatim>\<open>'true'\<close>, or no STOR and COMPLETION are found for it) hands
  \<^verbatim>\<open>last_transfer_completion_time\<close> on unchanged; an event that emits a record sets it to the
  completion time of that record.
\<close>

theorem previous_transfer_overlap:
  "(\<forall>rs. analyze_transfers mqtt_events ftp_events tol_stor tol_conn = Inr rs \<longrightarrow>
      (\<forall>k<length rs.
         overlapped_with_previous_transfer (rs ! k)
         \<longleftrightarrow> (0 < k \<and> mqtt_true_time (rs ! k) < ftp_completion_time (rs ! (k - 1)))))
   \<and> (type e \<noteq> MQTT_true
        \<or> analyze_true_event e later ftp_events tol_stor tol_conn lc = Inr None \<longrightarrow>
        analyze_loop (e # later) ftp_events tol_stor tol_conn lc
          = analyze_loop later ftp_events tol_stor tol_conn lc)
   \<and> (\<forall>res. type e = MQTT_true
          \<and> analyze_true_event e later ftp_events tol_stor tol_conn lc = Inr (Some res) \<longrightarrow>
        analyze_loop (e # later) ftp_events tol_stor tol_conn lc
          = err_bind
              (analyze_loop later ftp_events tol_stor tol_conn (Some (ftp_completion_time res)))
              (\<lambda>rest. Inr (res # rest)))"
proof -
  have c1: "overlapped_with_previous_transfer (rs ! k)
         \<longleftrightarrow> (0 < k \<and> mqtt_true_time (rs ! k) < ftp_completion_time (rs ! (k - 1)))"
    if "analyze_transfers mqtt_events ftp_events tol_stor tol_conn = Inr rs" "k < length rs"
    for rs k
    unfolding analyze_loop_overlap [OF that(1) [unfolded analyze_transfers_def] that(2)]
    by (cases k) simp_all
  have c2: "analyze_loop (e # later) ftp_events tol_stor tol_conn lc
          = analyze_loop later ftp_events tol_stor tol_conn lc"
    if "type e \<noteq> MQTT_true
        \<or> analyze_true_event e later ftp_events tol_stor tol_conn lc = Inr None"
    using that by (rule analyze_loop_skip)
  have c3: "analyze_loop (e # later) ftp_events tol_stor tol_conn lc
          = err_bind
              (analyze_loop later ftp_events tol_stor tol_conn (Some (ftp_completion_time res)))
              (\<lambda>rest. Inr (res # rest))"
    if "type e = MQTT_true
          \<and> analyze_true_event e later ftp_events tol_stor tol_conn lc = Inr (Some res)" for res
    using that analyze_loop_emit by blast
  from c1 c2 c3 show ?thesis by blast
qed

theorem previous_transfer_overlap_witness:
  "analyze_transfers scenario_C_mqtt scenario_C_ftp 10 30
     = Inr (projr (analyze_transfers scenario_C_mqtt scenario_C_ftp 10 30))
   \<and> (1::nat) < length (projr (analyze_transfers scenario_C_mqtt scenario_C_ftp 10 30))
   \<and> overlapped_with_previous_transfer
        (projr (analyze_transfers scenario_C_mqtt scenario_C_ftp 10 30) ! 1)
   \<and> mqtt_true_time (projr (analyze_transfers scenario_C_mqtt scenario_C_ftp 10 30) ! 1)
       < ftp_completion_time
           (projr (analyze_transfers scenario_C_mqtt scenario_C_ftp 10 30) ! (1 - 1))"
proof -
  let ?rs = "projr (analyze_transfers scenario_C_mqtt scenario_C_ftp 10 30)"
  note ret = scenario_C_returns
  have len: "(1::nat) < length ?rs" by (simp add: scenario_defs run_defs)
  have ov: "overlapped_with_previous_transfer (?rs ! 1)" by (simp add: scenario_defs run_defs)
  from previous_transfer_overlap [of scenario_C_mqtt scenario_C_ftp 10 30] ret
  have "\<forall>k<length ?rs. overlapped_with_previous_transfer (?rs ! k)
          \<longleftrightarrow> (0 < k \<and> mqtt_true_time (?rs ! k) < ftp_completion_time (?rs ! (k - 1)))"
    by blast
  with len ov have "mqtt_true_time (?rs ! 1) < ftp_completion_time (?rs ! (1 - 1))" by blast
  with ret len ov show ?thesis by blast
qed

section \<open>Overlap with the \<^verbatim>\<open>'false'\<close> signal\<close>

text \<open>
  Claim C3. For a record emitted for an event of type \<^verbatim>\<open>'true'\<close>, let \<open>off\<close> be the timestamp
  of the first event of type \<^verbatim>\<open>'false'\<close> behind that event in the MQTT sequence, whatever the
  transfer matched. \<^verbatim>\<open>transfer_completed_after_false_signal\<close> holds exactly when there is such
  an \<open>off\<close> and the completion is strictly later, and exactly then
  \<^verbatim>\<open>time_overlap_after_false_signal_seconds\<close> is set, to the completion time minus \<open>off\<close> in
  seconds. In scenario B (signal at 0 s, STOR at 2 s, \<^verbatim>\<open>'false'\<close> at 4 s, completion at 5 s)
  the one record has latency 2, duration 3, completed after false, overlap 1.
\<close>

theorem false_signal_overlap:
  "(\<forall>r. analyze_true_event e later ftp_events tol_stor tol_conn lc = Inr (Some r) \<longrightarrow>
        next_false_mqtt_time r = first_signal_off later
        \<and> (transfer_completed_after_false_signal r
             \<longleftrightarrow> (\<exists>off. first_signal_off later = Some off \<and> off < ftp_completion_time r))
        \<and> time_overlap_after_false_signal_seconds r =
             (case first_signal_off later of
                None \<Rightarrow> None
              | Some off \<Rightarrow> if off < ftp_completion_time r
                             then Some (total_seconds (ftp_completion_time r - off)) else None))
   \<and> (\<forall>rs. analyze_transfers mqtt_events ftp_events tol_stor tol_conn = Inr rs \<longrightarrow>
        (\<forall>r\<in>set rs.
          (transfer_completed_after_false_signal r
             \<longleftrightarrow> (\<exists>off. next_false_mqtt_time r = Some off \<and> off < ftp_completion_time r))
          \<and> time_overlap_after_false_signal_seconds r =
               (if transfer_completed_after_false_signal r
                then Some (total_seconds (ftp_completion_time r - the (next_false_mqtt_time r)))
                else None)
          \<and> (\<exists>earlier e later. mqtt_events = earlier @ e # later \<and> type e = MQTT_true
                \<and> timestamp e = mqtt_true_time r
                \<and> next_false_mqtt_time r = first_signal_off later)))
   \<and> map_sum id
        (map (\<lambda>r. (time_true_to_transfer_start_seconds r, transfer_duration_seconds r,
                    transfer_completed_after_false_signal r,
                    time_overlap_after_false_signal_seconds r)))
        (analyze_transfers scenario_B_mqtt scenario_B_ftp 10 30)
      = Inr [(2, 3, True, Some 1)]"
proof -
  have one: "next_false_mqtt_time r = first_signal_off later'
        \<and> (transfer_completed_after_false_signal r
             \<longleftrightarrow> (\<exists>off. first_signal_off later' = Some off \<and> off < ftp_completion_time r))
        \<and> time_overlap_after_false_signal_seconds r =
             (case first_signal_off later' of
                None \<Rightarrow> None
              | Some off \<Rightarrow> if off < ftp_completion_time r
                             then Some (total_seconds (ftp_completion_time r - off)) else None)"
    if "analyze_true_event e' later' ftp_events tol_stor tol_conn lc' = Inr (Some r)"
    for e' later' lc' r
    using analyze_true_event_fields [OF that]
    by (auto simp: next_false_mqtt_find split: option.splits)
  have all: "(transfer_completed_after_false_signal r
           \<longleftrightarrow> (\<exists>off. next_false_mqtt_time r = Some off \<and> off < ftp_completion_time r))
        \<and> time_overlap_after_false_signal_seconds r =
             (if transfer_completed_after_false_signal r
              then Some (total_seconds (ftp_completion_time r - the (next_false_mqtt_time r)))
              else None)
        \<and> (\<exists>earlier e later. mqtt_events = earlier @ e # later \<and> type e = MQTT_true
              \<and> timestamp e = mqtt_true_time r
              \<and> next_false_mqtt_time r = first_signal_off later)"
    if "analyze_transfers mqtt_events ftp_events tol_stor tol_conn = Inr rs" "r \<in> set rs"
    for rs r
  proof -
    from that obtain earlier e' later' lc' where p:
      "mqtt_events = earlier @ e' # later'" "type e' = MQTT_true"
      "analyze_true_event e' later' ftp_events tol_stor tol_conn lc' = Inr (Some r)"
      by (rule analyze_transfers_provenance)
    note o = one [OF p(3)]
    have ts: "timestamp e' = mqtt_true_time r"
      using analyze_true_event_start(1) [OF p(3)] by simp
    have "\<exists>earlier e later. mqtt_events = earlier @ e # later \<and> type e = MQTT_true
              \<and> timestamp e = mqtt_true_time r
              \<and> next_false_mqtt_time r = first_signal_off later"
      using p(1,2) ts o by blast
    moreover have "transfer_completed_after_false_signal r
           \<longleftrightarrow> (\<exists>off. next_false_mqtt_time r = Some off \<and> off < ftp_completion_time r)"
      using o by simp
    moreover have "time_overlap_after_false_signal_seconds r =
             (if transfer_completed_after_false_signal r
              then Some (total_seconds (ftp_completion_time r - the (next_false_mqtt_time r)))
              else None)"
      using o by (auto split: option.splits)
    ultimately show ?thesis by blast
  qed
  note scen = scenario_B_run
  from one all scen show ?thesis by blast
qed

theorem false_signal_overlap_witness:
  "analyze_transfers scenario_B_mqtt scenario_B_ftp 10 30
     = Inr (projr (analyze_transfers scenario_B_mqtt scenario_B_ftp 10 30))
   \<and> projr (analyze_transfers scenario_B_mqtt scenario_B_ftp 10 30) \<noteq> []
   \<and> transfer_completed_after_false_signal
        (hd (projr (analyze_transfers scenario_B_mqtt scenario_B_ftp 10 30)))
   \<and> time_overlap_after_false_signal_seconds
        (hd (projr (analyze_transfers scenario_B_mqtt scenario_B_ftp 10 30)))
      = Some (total_seconds (seconds 5 - seconds 4))"
proof -
  let ?rs = "projr (analyze_transfers scenario_B_mqtt scenario_B_ftp 10 30)"
  note ret = scenario_B_returns
  have ne: "?rs \<noteq> []" by (simp add: scenario_defs run_defs)
  then have mem: "hd ?rs \<in> set ?rs" by simp
  have c: "transfer_completed_after_false_signal (hd ?rs)" by (simp add: scenario_defs run_defs)
  have t: "ftp_completion_time (hd ?rs) = seconds 5" "next_false_mqtt_time (hd ?rs) = Some (seconds 4)"
    by (simp_all add: scenario_defs run_defs)
  from false_signal_overlap [of _ _ scenario_B_ftp 10 30 _ scenario_B_mqtt] ret mem
  have "time_overlap_after_false_signal_seconds (hd ?rs) =
             (if transfer_completed_after_false_signal (hd ?rs)
              then Some (total_seconds (ftp_completion_time (hd ?rs) - the (next_false_mqtt_time (hd ?rs))))
              else None)" by blast
  with c t have "time_overlap_after_false_signal_seconds (hd ?rs)
      = Some (total_seconds (seconds 5 - seconds 4))" by simp
  with ret ne c show ?thesis by blast
qed

section \<open>Bounds on latency and duration\<close>




section \<open>At most one record per \<^verbatim>\<open>'true'\<close> event\<close>

text \<open>
  Claim C7. Whatever the two event sequences and the tolerances, a list returned by
  \<^verbatim>\<open>analyze_transfers\<close> is no longer than the number of events of type \<^verbatim>\<open>'true'\<close> in the
  MQTT sequence: an iteration appends at most one record, and only for such an event. (A
  call that raises returns no list.)
\<close>

theorem analyze_transfers_at_most_one_per_true:
  "\<forall>rs. analyze_transfers mqtt_events ftp_events tol_stor tol_conn = Inr rs \<longrightarrow>
     length rs \<le> length (filter (\<lambda>e. type e = MQTT_true) mqtt_events)"
  unfolding analyze_transfers_def using analyze_loop_length by blast

theorem analyze_transfers_at_most_one_per_true_witness:
  "analyze_transfers scenario_C_mqtt scenario_C_ftp 10 30
     = Inr (projr (analyze_transfers scenario_C_mqtt scenario_C_ftp 10 30))
   \<and> length (projr (analyze_transfers scenario_C_mqtt scenario_C_ftp 10 30)) = 2
   \<and> length (projr (analyze_transfers scenario_C_mqtt scenario_C_ftp 10 30))
       \<le> length (filter (\<lambda>e. type e = MQTT_true) scenario_C_mqtt)"
proof -
  note ret = scenario_C_returns
  have two: "length (projr (analyze_transfers scenario_C_mqtt scenario_C_ftp 10 30)) = 2"
    by (simp add: scenario_defs run_defs)
  from analyze_transfers_at_most_one_per_true [of scenario_C_mqtt scenario_C_ftp 10 30] ret
  have "length (projr (analyze_transfers scenario_C_mqtt scenario_C_ftp 10 30))
       \<le> length (filter (\<lambda>e. type e = MQTT_true) scenario_C_mqtt)" by blast
  with ret two show ?thesis by blast
qed

section \<open>Completion strictly after the start\<close>

text \<open>
  Claim C10. For every record of a result that is returned, the completion is the first
  COMPLETION of \<^verbatim>\<open>ftp_events\<close>, in list order, whose timestamp is strictly greater than that
  of the matched STOR, so the completion time is strictly later than the STOR time and the
  duration is strictly positive. When \<^verbatim>\<open>ftp_events\<close> is sorted by timestamp, as the parser
  returns it, no COMPLETION strictly after the STOR is earlier than the one matched. A
  COMPLETION at the very instant of the STOR is passed over: the next one is matched, and
  without a next one nothing is emitted.
\<close>

theorem completion_strictly_after_start:
  "(\<forall>rs. analyze_transfers mqtt_events ftp_events tol_stor tol_conn = Inr rs \<longrightarrow>
      (\<forall>r\<in>set rs.
        map_option timestamp (find (completes_after (ftp_stor_time r)) ftp_events)
          = Some (ftp_completion_time r)
        \<and> ftp_stor_time r < ftp_completion_time r
        \<and> 0 < transfer_duration_seconds r
        \<and> (sorted (map timestamp ftp_events) \<longrightarrow>
             (\<forall>c\<in>set ftp_events. completes_after (ftp_stor_time r) c \<longrightarrow>
                 ftp_completion_time r \<le> timestamp c))))
   \<and> map_sum id (map (\<lambda>r. (ftp_stor_time r, ftp_completion_time r)))
        (analyze_transfers scenario_B_mqtt scenario_tie_ftp 10 30)
      = Inr [(seconds 2, seconds 5)]
   \<and> analyze_transfers scenario_B_mqtt scenario_tie_only_ftp 10 30 = Inr []"
proof (intro conjI allI impI ballI)
  fix rs r
  assume ret: "analyze_transfers mqtt_events ftp_events tol_stor tol_conn = Inr rs"
  {
    assume "r \<in> set rs"
    with ret obtain e later lc where ev:
      "analyze_true_event e later ftp_events tol_stor tol_conn lc = Inr (Some r)"
      by (rule analyze_transfers_provenance)
    note b = analyze_true_event_bounds [OF ev]
    show f: "map_option timestamp (find (completes_after (ftp_stor_time r)) ftp_events)
            = Some (ftp_completion_time r)"
      by (rule analyze_true_event_start(3) [OF ev])
    show "ftp_stor_time r < ftp_completion_time r" by (rule b(3))
    show "0 < transfer_duration_seconds r" unfolding b(5) using b(3) by simp
  }
  {
    fix c
    assume "r \<in> set rs" and s: "sorted (map timestamp ftp_events)"
      and c: "c \<in> set ftp_events" "completes_after (ftp_stor_time r) c"
    with ret obtain e later lc where ev:
      "analyze_true_event e later ftp_events tol_stor tol_conn lc = Inr (Some r)"
      by (auto elim: analyze_transfers_provenance)
    from analyze_true_event_start(3) [OF ev]
    obtain x where x: "find (completes_after (ftp_stor_time r)) ftp_events = Some x"
      "timestamp x = ftp_completion_time r" by auto
    from find_sorted_least [OF s x(1) c] x(2)
    show "ftp_completion_time r \<le> timestamp c" by simp
  }
next
  show "map_sum id (map (\<lambda>r. (ftp_stor_time r, ftp_completion_time r)))
          (analyze_transfers scenario_B_mqtt scenario_tie_ftp 10 30)
        = Inr [(seconds 2, seconds 5)]"
    by (simp add: scenario_tie_ftp_def scenario_defs run_defs)
  show "analyze_transfers scenario_B_mqtt scenario_tie_only_ftp 10 30 = Inr []"
    by (simp add: scenario_tie_only_ftp_def scenario_defs run_defs)
qed

theorem completion_strictly_after_start_witness:
  "analyze_transfers scenario_C_mqtt scenario_C_ftp 10 30
     = Inr (projr (analyze_transfers scenario_C_mqtt scenario_C_ftp 10 30))
   \<and> projr (analyze_transfers scenario_C_mqtt scenario_C_ftp 10 30) \<noteq> []
   \<and> sorted (map timestamp scenario_C_ftp)
   \<and> ftp_msg COMPLETION (seconds 8) \<in> set scenario_C_ftp
   \<and> completes_after
       (ftp_stor_time (hd (projr (analyze_transfers scenario_C_mqtt scenario_C_ftp 10 30))))
       (ftp_msg COMPLETION (seconds 8))
   \<and> ftp_completion_time (hd (projr (analyze_transfers scenario_C_mqtt scenario_C_ftp 10 30)))
       \<le> timestamp (ftp_msg COMPLETION (seconds 8))
   \<and> ftp_stor_time (hd (projr (analyze_transfers scenario_C_mqtt scenario_C_ftp 10 30)))
       < ftp_completion_time
           (hd (projr (analyze_transfers scenario_C_mqtt scenario_C_ftp 10 30)))"
proof -
  let ?rs = "projr (analyze_transfers scenario_C_mqtt scenario_C_ftp 10 30)"
  let ?c = "ftp_msg COMPLETION (seconds 8)"
  note ret = scenario_C_returns
  have ne: "?rs \<noteq> []" by (simp add: scenario_defs run_defs)
  then have mem: "hd ?rs \<in> set ?rs" by simp
  have s: "sorted (map timestamp scenario_C_ftp)" by (simp add: scenario_defs)
  have c: "?c \<in> set scenario_C_ftp" by (simp add: scenario_defs)
  have a: "completes_after (ftp_stor_time (hd ?rs)) ?c"
    by (simp add: scenario_defs run_defs completes_after_def)
  from completion_strictly_after_start [of scenario_C_mqtt scenario_C_ftp 10 30] ret mem s c a
  have "ftp_completion_time (hd ?rs) \<le> timestamp ?c
        \<and> ftp_stor_time (hd ?rs) < ftp_completion_time (hd ?rs)" by blast
  with ret ne s c a show ?thesis by blast
qed

section \<open>Empty input and the summary\<close>

lemma py_format_4f [simp]: "py_format_float ''.4f'' x = Inr ()"
  by (simp add: py_format_float_def float_format_spec_valid_def skip_char_def is_digit_def
        Let_def)

lemma py_format_2f_blank [simp]: "py_format_float ''.2f '' x = Inl ValueError"
  by (simp add: py_format_float_def float_format_spec_valid_def skip_char_def is_digit_def
        Let_def)

lemma overlap_after_false_durations_ok:
  "\<forall>r\<in>set rs. transfer_completed_after_false_signal r \<longrightarrow>
       time_overlap_after_false_signal_seconds r \<noteq> None \<Longrightarrow>
   \<exists>vs. overlap_after_false_durations rs = Inr vs"
  by (induction rs) auto

lemma overlap_after_false_durations_error:
  "overlap_after_false_durations rs = Inl err \<Longrightarrow> err = TypeError"
  by (induction rs) (auto simp: err_bind_eq_Inl split: if_splits option.splits)

lemma overlap_summary_error:
  "overlap_summary ds \<noteq> Inl ZeroDivisionError"
  by (simp add: overlap_summary_def py_div_def py_max_def)

lemma summary_step_empty: "summary_step [] = Inr None"
  by (simp add: summary_step_def)

lemma summary_step_format_error:
  assumes "rs \<noteq> []"
    and "\<forall>r\<in>set rs. transfer_completed_after_false_signal r \<longrightarrow>
           time_overlap_after_false_signal_seconds r \<noteq> None"
  shows "summary_step rs = Inl ValueError"
proof -
  from overlap_after_false_durations_ok [OF assms(2)]
  obtain vs where vs: "overlap_after_false_durations rs = Inr vs" by blast
  show ?thesis
    using assms(1) vs
    by (simp add: summary_step_def py_div_def py_min_def py_max_def Let_def)
qed

lemma summary_step_no_zero_division: "summary_step rs \<noteq> Inl ZeroDivisionError"
proof (cases "overlap_after_false_durations rs")
  case (Inl err)
  then have "err = TypeError" by (rule overlap_after_false_durations_error)
  then show ?thesis using Inl by (simp add: summary_step_def)
next
  case (Inr vs)
  show ?thesis
  proof (cases "rs = []")
    case True
    then show ?thesis by (simp add: summary_step_empty)
  next
    case False
    then show ?thesis
      using Inr by (simp add: summary_step_def py_div_def py_min_def py_max_def Let_def)
  qed
qed

lemma analyze_transfers_overlap_set:
  assumes "analyze_transfers mqtt_events ftp_events ts tc = Inr rs" and "r \<in> set rs"
    and "transfer_completed_after_false_signal r"
  shows "time_overlap_after_false_signal_seconds r \<noteq> None"
proof -
  from assms(1,2) obtain e later lc where
    "analyze_true_event e later ftp_events ts tc lc = Inr (Some r)"
    by (rule analyze_transfers_provenance)
  from analyze_true_event_fields [OF this] assms(3) show ?thesis
    by (auto split: option.splits)
qed

lemma analyze_transfers_error:
  "analyze_transfers mqtt_events ftp_events ts tc = Inl err \<Longrightarrow> err = OverflowError"
  unfolding analyze_transfers_def by (rule analyze_loop_error)

text \<open>
  Claim C8, as the code has it. With no FTP events \<^verbatim>\<open>analyze_transfers\<close> returns the empty
  list whenever, for every event of type \<^verbatim>\<open>'true'\<close>, the end of the start window is a
  \<^verbatim>\<open>datetime\<close>; otherwise line 145 raises \<^verbatim>\<open>OverflowError\<close>, and the call returns nothing.
  \<^verbatim>\<open>run_analysis\<close> does not come that far: with no FTP events it returns before the
  correlation. Whenever the list of correlated transfers is empty \<^verbatim>\<open>run_analysis\<close> returns
  before the report, so the summary is computed only for a non-empty list, where every
  divisor is the length of a non-empty list: neither \<^verbatim>\<open>run_analysis\<close> nor the summary block
  on any list raises \<^verbatim>\<open>ZeroDivisionError\<close>, and the summary block divides nothing on the
  empty list. (On a non-empty list the block ends in the \<^verbatim>\<open>ValueError\<close> of the format spec
  of line 302.)
\<close>

theorem empty_input_no_division_by_zero:
  "(analyze_transfers mqtt_events [] tol_stor tol_conn = Inr []
      \<or> analyze_transfers mqtt_events [] tol_stor tol_conn = Inl OverflowError)
   \<and> ((\<forall>e\<in>set mqtt_events. type e = MQTT_true \<longrightarrow>
          (\<exists>td w. timedelta_seconds tol_stor = Inr td
                  \<and> datetime_add (timestamp e) td = Inr w)) \<longrightarrow>
        analyze_transfers mqtt_events [] tol_stor tol_conn = Inr [])
   \<and> (run_analysis mqtt_events [] = Inr No_mqtt_messages
        \<or> run_analysis mqtt_events [] = Inr No_ftp_events)
   \<and> (analyze_transfers mqtt_events ftp_events 10 30 = Inr [] \<longrightarrow>
         run_analysis mqtt_events ftp_events
           \<in> {Inr No_mqtt_messages, Inr No_ftp_events, Inr No_correlations})
   \<and> run_analysis mqtt_events ftp_events \<noteq> Inl ZeroDivisionError
   \<and> (\<forall>rs. summary_step rs \<noteq> Inl ZeroDivisionError)
   \<and> summary_step [] = Inr None
   \<and> (\<forall>rs. mqtt_events \<noteq> [] \<and> ftp_events \<noteq> []
          \<and> analyze_transfers mqtt_events ftp_events 10 30 = Inr rs \<and> rs \<noteq> [] \<longrightarrow>
         run_analysis mqtt_events ftp_events = Inl ValueError)"
proof -
  have c1: "analyze_transfers mqtt_events [] tol_stor tol_conn = Inr []
      \<or> analyze_transfers mqtt_events [] tol_stor tol_conn = Inl OverflowError"
  proof (cases "analyze_transfers mqtt_events [] tol_stor tol_conn")
    case (Inl err)
    then show ?thesis using analyze_transfers_error by blast
  next
    case (Inr rs)
    then show ?thesis
      using analyze_loop_no_ftp [of mqtt_events tol_stor tol_conn None rs]
      by (simp add: analyze_transfers_def)
  qed
  have c2: "analyze_transfers mqtt_events [] tol_stor tol_conn = Inr []"
    if "\<forall>e\<in>set mqtt_events. type e = MQTT_true \<longrightarrow>
          (\<exists>td w. timedelta_seconds tol_stor = Inr td
                  \<and> datetime_add (timestamp e) td = Inr w)"
    unfolding analyze_transfers_def using that by (rule analyze_loop_no_ftp_representable)
  have c3: "run_analysis mqtt_events [] = Inr No_mqtt_messages
        \<or> run_analysis mqtt_events [] = Inr No_ftp_events"
    by (simp add: run_analysis_def)
  have c4: "run_analysis mqtt_events ftp_events
           \<in> {Inr No_mqtt_messages, Inr No_ftp_events, Inr No_correlations}"
    if "analyze_transfers mqtt_events ftp_events 10 30 = Inr []"
    using that by (simp add: run_analysis_def)
  have c8: "run_analysis mqtt_events ftp_events = Inl ValueError"
    if "mqtt_events \<noteq> [] \<and> ftp_events \<noteq> []
          \<and> analyze_transfers mqtt_events ftp_events 10 30 = Inr rs \<and> rs \<noteq> []" for rs
  proof -
    have "summary_step rs = Inl ValueError"
      using that analyze_transfers_overlap_set [of mqtt_events ftp_events 10 30 rs]
      by (intro summary_step_format_error) blast+
    then show ?thesis using that by (simp add: run_analysis_def)
  qed
  have c5: "run_analysis mqtt_events ftp_events \<noteq> Inl ZeroDivisionError"
  proof (cases "analyze_transfers mqtt_events ftp_events 10 30")
    case (Inl err)
    then have "err = OverflowError" by (rule analyze_transfers_error)
    then show ?thesis using Inl by (simp add: run_analysis_def)
  next
    case (Inr rs)
    show ?thesis
    proof (cases "mqtt_events \<noteq> [] \<and> ftp_events \<noteq> [] \<and> rs \<noteq> []")
      case True
      then show ?thesis using c8 [of rs] Inr by simp
    next
      case False
      then show ?thesis using Inr by (auto simp: run_analysis_def)
    qed
  qed
  note c6 = summary_step_no_zero_division
  note c7 = summary_step_empty
  from c1 c2 c3 c4 c5 c6 c7 c8 show ?thesis by blast
qed

theorem empty_input_no_division_by_zero_witness:
  "analyze_transfers scenario_A_mqtt [] 10 30 = Inr []
   \<and> analyze_transfers scenario_A_mqtt scenario_A_ftp_outside 10 30 = Inr []
   \<and> run_analysis scenario_A_mqtt scenario_A_ftp_outside = Inr No_correlations
   \<and> run_analysis scenario_A_mqtt [] = Inr No_ftp_events
   \<and> run_analysis scenario_B_mqtt scenario_B_ftp = Inl ValueError"
proof -
  note e = scenario_A_outside_run
  have ne: "scenario_A_mqtt \<noteq> []" "scenario_A_ftp_outside \<noteq> []"
    "scenario_B_mqtt \<noteq> []" "scenario_B_ftp \<noteq> []"
    by (simp_all add: scenario_defs)
  have rep: "\<forall>e\<in>set scenario_A_mqtt. type e = MQTT_true \<longrightarrow>
          (\<exists>td w. timedelta_seconds 10 = Inr td \<and> datetime_add (timestamp e) td = Inr w)"
    by (simp add: scenario_defs datetime_add_def datetime_min_def datetime_max_def)
  have n1: "run_analysis scenario_A_mqtt scenario_A_ftp_outside \<noteq> Inr No_mqtt_messages"
           "run_analysis scenario_A_mqtt scenario_A_ftp_outside \<noteq> Inr No_ftp_events"
    using ne e by (simp_all add: run_analysis_def)
  note inst = empty_input_no_division_by_zero [of scenario_A_mqtt 10 30 scenario_A_ftp_outside]
  from inst rep have z: "analyze_transfers scenario_A_mqtt [] 10 30 = Inr []" by blast
  from inst e
  have "run_analysis scenario_A_mqtt scenario_A_ftp_outside
           \<in> {Inr No_mqtt_messages, Inr No_ftp_events, Inr No_correlations}" by blast
  with n1 have a: "run_analysis scenario_A_mqtt scenario_A_ftp_outside = Inr No_correlations"
    by blast
  have b: "run_analysis scenario_A_mqtt [] = Inr No_ftp_events"
    using ne by (simp add: run_analysis_def)
  have "projr (analyze_transfers scenario_B_mqtt scenario_B_ftp 10 30) \<noteq> []"
    by (simp add: scenario_defs run_defs)
  with empty_input_no_division_by_zero [of scenario_B_mqtt 10 30 scenario_B_ftp]
    scenario_B_returns ne
  have c: "run_analysis scenario_B_mqtt scenario_B_ftp = Inl ValueError" by blast
  from z e a b c show ?thesis by blast
qed

text \<open>
  With no FTP events the correlation does not always return the empty list: for a signal at
  9999-12-31 23:59:55 and the tolerance of 10 s, line 145 raises \<^verbatim>\<open>OverflowError\<close>.
\<close>

theorem empty_input_counterexample:
  "analyze_transfers last_seconds_mqtt [] 10 30 = Inl OverflowError
   \<and> analyze_transfers last_seconds_mqtt [] 10 30 \<noteq> Inr []"
  by (simp add: last_seconds_mqtt_def mqtt_msg_def seconds_def run_defs)

section \<open>Packet metrics\<close>

lemmas metrics_defs =
  calculate_metrics_def flag_count_def has_column_def throughput_Mbps_def rtt_ms_def
  primary_opened_ts_def primary_closed_ts_def fallback_opened_ts_def fallback_closed_ts_def
  getitem_def err_bind_def eq_one_def isin_def mask_and_def mask_or_def frame_time_def
  select_rows_def series_min_def series_max_def strftime_ms_def

lemma set_dropna: "set (dropna xs) = {t. Some t \<in> set xs}"
  by (induction xs rule: dropna.induct) auto

lemma select_rows_none: "True \<notin> set sel \<Longrightarrow> select_rows sel xs = []"
proof -
  assume none: "True \<notin> set sel"
  have "\<not> fst p" if "p \<in> set (zip sel xs)" for p
  proof -
    obtain a b where "p = (a, b)" by (cases p)
    with that have "fst p \<in> set sel" by (auto dest: set_zip_leftD)
    with none show ?thesis by auto
  qed
  then have "filter fst (zip sel xs) = []" by (simp add: filter_empty_conv)
  then show ?thesis by (simp add: select_rows_def)
qed

lemma set_select_rows:
  assumes "length sel = length xs"
  shows "set (select_rows sel xs) = {x. \<exists>i<length xs. sel ! i \<and> xs ! i = x}"
  unfolding select_rows_def using assms
  by (auto simp: set_zip image_iff) force

lemma selected_times:
  assumes "length sel = length ts"
  shows "{t. Some t \<in> set (select_rows sel ts)} = {t. \<exists>i<length ts. sel ! i \<and> ts ! i = Some t}"
  using set_select_rows [OF assms] by auto

lemma series_min_earliest: "series_min ts = earliest {t. Some t \<in> set ts}"
  by (simp add: series_min_def earliest_def set_dropna [symmetric])

lemma series_max_latest: "series_max ts = latest {t. Some t \<in> set ts}"
  by (simp add: series_max_def latest_def set_dropna [symmetric])

lemma primary_opened_ts_present:
  assumes "map_of df ''tcp.flags.syn'' = Some (NumCol syn)"
    and "map_of df ''ip.src'' = Some (StrCol src)"
    and "map_of df ''frame.time'' = Some (TimeCol time)"
    and "length syn = n" "length src = n" "length time = n"
  shows "primary_opened_ts df camera_ips =
           Inr (earliest {t. \<exists>i<n. syn ! i = Some 1 \<and> src ! i \<in> set camera_ips
                                \<and> time ! i = Some t})"
proof -
  let ?sel = "mask_and (eq_one (NumCol syn)) (isin (StrCol src) camera_ips)"
  have len: "length ?sel = length time"
    using assms(4-6) by (simp add: mask_and_def eq_one_def isin_def)
  have nth: "?sel ! i = (syn ! i = Some 1 \<and> src ! i \<in> set camera_ips)" if "i < n" for i
    using that assms(4-6) by (simp add: mask_and_def eq_one_def isin_def)
  have run: "primary_opened_ts df camera_ips = Inr (series_min (select_rows ?sel time))"
    using assms(1-3) select_rows_none [of ?sel time]
    by (simp add: primary_opened_ts_def has_column_def getitem_def err_bind_def frame_time_def
          series_min_def Let_def)
  have "{t. Some t \<in> set (select_rows ?sel time)}
          = {t. \<exists>i<n. syn ! i = Some 1 \<and> src ! i \<in> set camera_ips \<and> time ! i = Some t}"
    unfolding selected_times [OF len] using nth assms(6) by auto
  then show ?thesis unfolding run series_min_earliest by simp
qed

lemma primary_closed_ts_present:
  assumes "map_of df ''tcp.flags.fin'' = Some (NumCol fin)"
    and "map_of df ''tcp.flags.reset'' = Some (NumCol rst)"
    and "map_of df ''ip.src'' = Some (StrCol src)"
    and "map_of df ''ip.dst'' = Some (StrCol dst)"
    and "map_of df ''frame.time'' = Some (TimeCol time)"
    and "length fin = n" "length rst = n" "length src = n" "length dst = n" "length time = n"
  shows "primary_closed_ts df camera_ips =
           Inr (latest {t. \<exists>i<n. (fin ! i = Some 1 \<or> rst ! i = Some 1)
                                \<and> (src ! i \<in> set camera_ips \<or> dst ! i \<in> set camera_ips)
                                \<and> time ! i = Some t})"
proof -
  let ?sel = "mask_and (mask_or (eq_one (NumCol fin)) (eq_one (NumCol rst)))
                       (mask_or (isin (StrCol src) camera_ips) (isin (StrCol dst) camera_ips))"
  have len: "length ?sel = length time"
    using assms(6-10) by (simp add: mask_and_def mask_or_def eq_one_def isin_def)
  have nth: "?sel ! i = ((fin ! i = Some 1 \<or> rst ! i = Some 1)
                          \<and> (src ! i \<in> set camera_ips \<or> dst ! i \<in> set camera_ips))"
    if "i < n" for i
    using that assms(6-10) by (simp add: mask_and_def mask_or_def eq_one_def isin_def)
  have run: "primary_closed_ts df camera_ips = Inr (series_max (select_rows ?sel time))"
    using assms(1-5) select_rows_none [of ?sel time]
    by (simp add: primary_closed_ts_def has_column_def getitem_def err_bind_def frame_time_def
          series_max_def Let_def)
  have "{t. Some t \<in> set (select_rows ?sel time)}
          = {t. \<exists>i<n. (fin ! i = Some 1 \<or> rst ! i = Some 1)
                      \<and> (src ! i \<in> set camera_ips \<or> dst ! i \<in> set camera_ips)
                      \<and> time ! i = Some t}"
    unfolding selected_times [OF len] using nth assms(10) by auto
  then show ?thesis unfolding run series_max_latest by simp
qed

text \<open>
  The same for flag columns of any dtype, \<^verbatim>\<open>int64\<close> among them: a flag is set in the rows
  that \<open>eq_one\<close> selects.
\<close>

lemma primary_connection_timestamps_any_dtype:
  assumes "map_of df ''tcp.flags.syn'' = Some syn_col"
    and "map_of df ''tcp.flags.fin'' = Some fin_col"
    and "map_of df ''tcp.flags.reset'' = Some rst_col"
    and "map_of df ''ip.src'' = Some (StrCol src)"
    and "map_of df ''ip.dst'' = Some (StrCol dst)"
    and "map_of df ''frame.time'' = Some (TimeCol time)"
    and "length (eq_one syn_col) = n" "length (eq_one fin_col) = n"
    and "length (eq_one rst_col) = n"
    and "length src = n" "length dst = n" "length time = n"
  shows "primary_opened_ts df camera_ips =
           Inr (earliest {t. \<exists>i<n. eq_one syn_col ! i \<and> src ! i \<in> set camera_ips
                                \<and> time ! i = Some t})"
    and "primary_closed_ts df camera_ips =
           Inr (latest {t. \<exists>i<n. (eq_one fin_col ! i \<or> eq_one rst_col ! i)
                                \<and> (src ! i \<in> set camera_ips \<or> dst ! i \<in> set camera_ips)
                                \<and> time ! i = Some t})"
proof -
  let ?open = "mask_and (eq_one syn_col) (isin (StrCol src) camera_ips)"
  have len: "length ?open = length time"
    using assms(7,10,12) by (simp add: mask_and_def isin_def)
  have nth: "?open ! i = (eq_one syn_col ! i \<and> src ! i \<in> set camera_ips)" if "i < n" for i
    using that assms(7,10,12) by (simp add: mask_and_def isin_def)
  have run: "primary_opened_ts df camera_ips = Inr (series_min (select_rows ?open time))"
    using assms(1,4,6) select_rows_none [of ?open time]
    by (simp add: primary_opened_ts_def has_column_def getitem_def err_bind_def frame_time_def
          series_min_def Let_def)
  have "{t. Some t \<in> set (select_rows ?open time)}
          = {t. \<exists>i<n. eq_one syn_col ! i \<and> src ! i \<in> set camera_ips \<and> time ! i = Some t}"
    unfolding selected_times [OF len] using nth assms(12) by auto
  then show "primary_opened_ts df camera_ips =
           Inr (earliest {t. \<exists>i<n. eq_one syn_col ! i \<and> src ! i \<in> set camera_ips
                                \<and> time ! i = Some t})"
    unfolding run series_min_earliest by simp
next
  let ?close = "mask_and (mask_or (eq_one fin_col) (eq_one rst_col))
                         (mask_or (isin (StrCol src) camera_ips) (isin (StrCol dst) camera_ips))"
  have len: "length ?close = length time"
    using assms(8-12) by (simp add: mask_and_def mask_or_def isin_def)
  have nth: "?close ! i = ((eq_one fin_col ! i \<or> eq_one rst_col ! i)
                          \<and> (src ! i \<in> set camera_ips \<or> dst ! i \<in> set camera_ips))"
    if "i < n" for i
    using that assms(8-12) by (simp add: mask_and_def mask_or_def isin_def)
  have run: "primary_closed_ts df camera_ips = Inr (series_max (select_rows ?close time))"
    using assms(2-6) select_rows_none [of ?close time]
    by (simp add: primary_closed_ts_def has_column_def getitem_def err_bind_def frame_time_def
          series_max_def Let_def)
  have "{t. Some t \<in> set (select_rows ?close time)}
          = {t. \<exists>i<n. (eq_one fin_col ! i \<or> eq_one rst_col ! i)
                      \<and> (src ! i \<in> set camera_ips \<or> dst ! i \<in> set camera_ips)
                      \<and> time ! i = Some t}"
    unfolding selected_times [OF len] using nth assms(12) by auto
  then show "primary_closed_ts df camera_ips =
           Inr (latest {t. \<exists>i<n. (eq_one fin_col ! i \<or> eq_one rst_col ! i)
                                \<and> (src ! i \<in> set camera_ips \<or> dst ! i \<in> set camera_ips)
                                \<and> time ! i = Some t})"
    unfolding run series_max_latest by simp
qed

subsection \<open>Missing columns\<close>

text \<open>
  On a table with none of the optional columns, and no column under the name of the RTT
  field, every test for a column fails and the function returns the zero of every counter,
  zero throughput and RTT, and no connection timestamp.
\<close>

lemma calculate_metrics_without_optional_columns:
  assumes "\<forall>c\<in>set optional_columns. \<not> has_column df c"
    and "\<forall>name. rtt_field = Some name \<longrightarrow> \<not> has_column df name"
  shows "calculate_metrics df duration_s rtt_field camera_ips =
           Inr \<lparr> total_retransmissions = 0, zero_window_count = 0, window_full_count = 0,
                 lost_segments_count = 0, duplicate_ack_count = 0,
                 measured_throughput_Mbps = 0, avg_rtt_ms = 0,
                 ftp_conn_opened_timestamp = None, ftp_conn_closed_timestamp = None \<rparr>"
proof -
  have absent: "\<not> has_column df ''frame.len''" "\<not> has_column df ''ip.src''"
    "\<not> has_column df ''tcp.flags.syn''" "\<not> has_column df ''tcp.flags.fin''"
    "\<not> has_column df ''tcp.analysis.retransmission''"
    "\<not> has_column df ''tcp.analysis.zero_window''"
    "\<not> has_column df ''tcp.analysis.window_full''"
    "\<not> has_column df ''tcp.analysis.lost_segment''"
    "\<not> has_column df ''tcp.analysis.duplicate_ack''"
    "\<not> has_column df ''ftp.request.command''" "\<not> has_column df ''ftp.response.code''"
    using assms(1) by (simp_all add: optional_columns_def)
  have counters: "flag_count df ''tcp.analysis.retransmission'' = Inr 0"
    "flag_count df ''tcp.analysis.zero_window'' = Inr 0"
    "flag_count df ''tcp.analysis.window_full'' = Inr 0"
    "flag_count df ''tcp.analysis.lost_segment'' = Inr 0"
    "flag_count df ''tcp.analysis.duplicate_ack'' = Inr 0"
    using absent by (simp_all add: flag_count_def)
  have thr: "throughput_Mbps df duration_s = Inr 0"
    using absent by (simp add: throughput_Mbps_def)
  have rtt: "rtt_ms df rtt_field = Inr 0"
    using assms(2) by (cases rtt_field) (simp_all add: rtt_ms_def)
  have prim: "primary_opened_ts df camera_ips = Inr None"
    "primary_closed_ts df camera_ips = Inr None"
    using absent by (simp_all add: primary_opened_ts_def primary_closed_ts_def)
  have fall: "fallback_opened_ts df None = Inr None" "fallback_closed_ts df None = Inr None"
    using absent by (simp_all add: fallback_opened_ts_def fallback_closed_ts_def)
  show ?thesis
    unfolding calculate_metrics_def counters thr rtt prim
    by (simp add: err_bind_def fall)
qed

text \<open>
  Claim C4. Not every subset of the optional columns may be absent. Line 189 reads
  \<^verbatim>\<open>df['tcp.flags.reset']\<close> after testing only for \<^verbatim>\<open>tcp.flags.fin\<close>, \<^verbatim>\<open>ip.src\<close> and \<^verbatim>\<open>ip.dst\<close>:
  on a table that has these three but no \<^verbatim>\<open>tcp.flags.reset\<close> the function raises
  \<^verbatim>\<open>KeyError\<close>. Line 186 reads \<^verbatim>\<open>frame.time\<close> without any test: on a table with a SYN row from
  a camera and no \<^verbatim>\<open>frame.time\<close> the function raises \<^verbatim>\<open>KeyError\<close> as well.
\<close>

theorem missing_column_raises:
  "calculate_metrics table_without_reset 1 None [''10.0.0.5'']
     = Inl (KeyError ''tcp.flags.reset'')
   \<and> calculate_metrics table_without_frame_time 1 None [''10.0.0.5'']
     = Inl (KeyError ''frame.time'')"
  by (simp add: metrics_defs table_without_reset_def table_without_frame_time_def pd_seconds_def)

subsection \<open>Connection timestamps\<close>

text \<open>
  Claim C5, as the code has it. On a table that has the flag, address and time columns, of
  \<open>n\<close> rows, the primary open timestamp is the earliest timestamp among the rows with the SYN
  flag set whose source address is in the address set (the destination address is not
  looked at), and the primary close timestamp is the latest timestamp among the rows with
  the FIN or the RESET flag set whose source or destination address is in the address set.
  Both are undetermined when no such row has a timestamp.
\<close>

theorem primary_connection_timestamps:
  assumes "map_of df ''tcp.flags.syn'' = Some (NumCol syn)"
    and "map_of df ''tcp.flags.fin'' = Some (NumCol fin)"
    and "map_of df ''tcp.flags.reset'' = Some (NumCol rst)"
    and "map_of df ''ip.src'' = Some (StrCol src)"
    and "map_of df ''ip.dst'' = Some (StrCol dst)"
    and "map_of df ''frame.time'' = Some (TimeCol time)"
    and "length syn = n" "length fin = n" "length rst = n"
    and "length src = n" "length dst = n" "length time = n"
  shows "primary_opened_ts df camera_ips =
           Inr (earliest {t. \<exists>i<n. syn ! i = Some 1 \<and> src ! i \<in> set camera_ips
                                \<and> time ! i = Some t})
       \<and> primary_closed_ts df camera_ips =
           Inr (latest {t. \<exists>i<n. (fin ! i = Some 1 \<or> rst ! i = Some 1)
                                \<and> (src ! i \<in> set camera_ips \<or> dst ! i \<in> set camera_ips)
                                \<and> time ! i = Some t})"
  using primary_opened_ts_present [OF assms(1,4,6,7,10,12)]
        primary_closed_ts_present [OF assms(2,3,4,5,6,8,9,10,11,12)]
  by simp

theorem primary_connection_timestamps_witness:
  "primary_opened_ts table_syn_to_camera [''10.0.0.5''] =
      Inr (earliest {t. \<exists>i<3. [Some 1, Some 1, Some (0::rat)] ! i = Some 1
                           \<and> [''10.0.0.9'', ''10.0.0.5'', ''10.0.0.9''] ! i \<in> set [''10.0.0.5'']
                           \<and> [Some (pd_seconds 1), Some (pd_seconds 2), Some (pd_seconds 7)] ! i = Some t})
   \<and> primary_opened_ts table_syn_to_camera [''10.0.0.5''] = Inr (Some (pd_seconds 2))
   \<and> primary_closed_ts table_syn_to_camera [''10.0.0.5''] = Inr (Some (pd_seconds 7))"
proof -
  have "primary_opened_ts table_syn_to_camera [''10.0.0.5''] =
      Inr (earliest {t. \<exists>i<3. [Some 1, Some 1, Some (0::rat)] ! i = Some 1
                           \<and> [''10.0.0.9'', ''10.0.0.5'', ''10.0.0.9''] ! i \<in> set [''10.0.0.5'']
                           \<and> [Some (pd_seconds 1), Some (pd_seconds 2), Some (pd_seconds 7)] ! i = Some t})"
    by (rule primary_connection_timestamps
              [where fin = "[Some 0, Some 0, Some 1]" and rst = "[Some 0, Some 0, Some 0]"
                 and dst = "[''10.0.0.5'', ''10.0.0.9'', ''10.0.0.5'']", THEN conjunct1])
       (simp_all add: table_syn_to_camera_def)
  moreover have "primary_opened_ts table_syn_to_camera [''10.0.0.5''] = Inr (Some (pd_seconds 2))"
    "primary_closed_ts table_syn_to_camera [''10.0.0.5''] = Inr (Some (pd_seconds 7))"
    by (simp_all add: metrics_defs table_syn_to_camera_def pd_seconds_def)
  ultimately show ?thesis by blast
qed

text \<open>
  The open timestamp does not take in the destination address: in a table whose first SYN,
  at 1 s, goes to the camera and whose second, at 2 s, comes from it, the code gives 2 s,
  where the earliest SYN row with the camera as source or destination is at 1 s.
\<close>

theorem syn_destination_counterexample:
  "primary_opened_ts table_syn_to_camera [''10.0.0.5''] = Inr (Some (pd_seconds 2))
   \<and> claimed_primary_opened_ts table_syn_to_camera [''10.0.0.5''] = Some (pd_seconds 1)
   \<and> primary_opened_ts table_syn_to_camera [''10.0.0.5'']
       \<noteq> Inr (claimed_primary_opened_ts table_syn_to_camera [''10.0.0.5''])
   \<and> calculate_metrics table_syn_to_camera 1 None [''10.0.0.5''] =
       Inr \<lparr> total_retransmissions = 0, zero_window_count = 0, window_full_count = 0,
             lost_segments_count = 0, duplicate_ack_count = 0,
             measured_throughput_Mbps = 0, avg_rtt_ms = 0,
             ftp_conn_opened_timestamp = Some (strftime_ms (pd_seconds 2)),
             ftp_conn_closed_timestamp = Some (strftime_ms (pd_seconds 7)) \<rparr>"
  by (simp add: metrics_defs claimed_primary_opened_ts_def table_syn_to_camera_def pd_seconds_def)

end
